theory Spec2Isabelle
  imports Main "HOL-Library.Char_ord" "HOL-Library.List_Lexorder" "HOL-Library.Option_ord"
    "HOL-Library.Multiset" "HOL-Library.AList"
begin

text \<open>
  A shallow embedding of \<^verbatim>\<open>src/index.js\<close> of the duplicate-package-checker webpack plugin:
  the path normaliser, the package locator, the issuer tracer, the aggregation of the
  compilation's modules, the classification of duplicates and the formatting of the
  diagnostics. JavaScript strings are lists of characters, compared by code unit
  (the lexicographic order of \<open>char list\<close>).
\<close>

section \<open>Path normalisation: \<open>cleanPath\<close>\<close>

text \<open>
  \<^verbatim>\<open>function cleanPath(path) {
    return path.split(/[\/\\]node_modules[\/\\]/).join("/~/");
  }\<close>
  A JavaScript string is a list of characters. Splitting on the regular expression and
  joining with the marker replaces, scanning from the left, every match of a separator,
  the word \<open>node_modules\<close> and a separator; the scan resumes behind a match, so matches
  never overlap.
\<close>

definition is_sep :: "char \<Rightarrow> bool" where
  "is_sep c = (c = CHR ''/'' \<or> c = CHR 0x5C)"

text \<open>\<open>nm_head s\<close>: \<open>s\<close> starts with \<open>node_modules\<close> and a separator.\<close>

definition nm_head :: "string \<Rightarrow> bool" where
  "nm_head s = (take 12 s = ''node_modules'' \<and> (case drop 12 s of [] \<Rightarrow> False | d # _ \<Rightarrow> is_sep d))"

fun cleanPath :: "string \<Rightarrow> string" where
  "cleanPath [] = []"
| "cleanPath (c # cs) =
     (if is_sep c \<and> nm_head cs then ''/~/'' @ cleanPath (drop 13 cs)
      else c # cleanPath cs)"

text \<open>
  \<open>adjacent_nm s\<close>: somewhere in \<open>s\<close> two \<open>node_modules\<close> segments follow each other
  directly, sharing the separator between them.
\<close>

fun adjacent_nm :: "string \<Rightarrow> bool" where
  "adjacent_nm [] = False"
| "adjacent_nm (c # cs) = ((is_sep c \<and> nm_head cs \<and> nm_head (drop 13 cs)) \<or> adjacent_nm cs)"

section \<open>The package locator: \<open>getClosestPackage\<close>\<close>

text \<open>
  The file system is a collaborator of the plugin. A path is absolute and normalised, the
  list of its segments from the top directory downwards; the file system says for each
  directory whether it holds a \<^verbatim>\<open>package.json\<close> and, if so, what \<^verbatim>\<open>require\<close> makes of it: an
  exception (\<open>Unparsable\<close>), the value \<^verbatim>\<open>null\<close> (a file that holds the JSON text \<^verbatim>\<open>null\<close>), or an
  object. Of the object the plugin reads \<^verbatim>\<open>name\<close> and \<^verbatim>\<open>version\<close>; each is a string or absent
  (\<^verbatim>\<open>undefined\<close>, here \<open>None\<close>). The plugin takes both as they are and checks neither. A file
  that holds a JSON number, string, boolean or array has neither property and is an object
  without name and version here.
\<close>

type_synonym dir = "string list"

record package_json =
  pkg_name :: "string option"
  pkg_version :: "string option"

datatype metadata = NoFile | Unparsable | ParsedNull | Parsed package_json

text \<open>
  An exception that leaves a function of the plugin. Those that the plugin can meet are of
  the class \<^verbatim>\<open>TypeError\<close>; the message is the one of the engine or of the library.
\<close>

datatype error = TypeError string

type_synonym filesystem = "dir \<Rightarrow> metadata"

text \<open>
  \<^verbatim>\<open>findRoot(start)\<close> of the find-root package: the directory \<open>start\<close> itself is checked
  first, then each ancestor; the package throws (here \<open>None\<close>) when the segments are used up.
\<close>

function findRoot :: "filesystem \<Rightarrow> dir \<Rightarrow> dir option" where
  "findRoot fs start =
     (if start = [] then None
      else if fs start \<noteq> NoFile then Some start
      else findRoot fs (butlast start))"
  by pat_completeness auto
termination
  by (relation "measure (\<lambda>(fs, start). length start)") auto

text \<open>JavaScript truthiness of a value that is absent or a string.\<close>

definition truthy :: "string option \<Rightarrow> bool" where
  "truthy s = (s \<noteq> None \<and> s \<noteq> Some [])"

record closest_package =
  cp_package :: package_json
  cp_path :: dir

text \<open>
  \<^verbatim>\<open>function getClosestPackage(modulePath) {
    let root; let pkg;
    try {
      root = findRoot(modulePath);
      pkg = require(path.join(root, "package.json"));
    } catch (e) { return null; }
    if (!pkg.name) { return getClosestPackage(path.resolve(root, "..")); }
    return { package: pkg, path: root };
  }\<close>
  \<^verbatim>\<open>path.resolve(root, "..")\<close> is the parent directory, \<open>butlast root\<close>. The \<^verbatim>\<open>try\<close> covers
  \<^verbatim>\<open>findRoot\<close> and \<^verbatim>\<open>require\<close> only: when \<^verbatim>\<open>require\<close> returns \<^verbatim>\<open>null\<close>, reading \<^verbatim>\<open>pkg.name\<close> on
  line 40 throws a \<^verbatim>\<open>TypeError\<close> that nothing catches. The result is \<open>Inl\<close> for this
  exception, \<open>Inr None\<close> for \<^verbatim>\<open>return null\<close> and \<open>Inr (Some p)\<close> for the object returned.
\<close>

definition null_has_no_name :: error where
  "null_has_no_name = TypeError ''Cannot read property 'name' of null''"

function getClosestPackage :: "filesystem \<Rightarrow> dir \<Rightarrow> error + closest_package option" where
  "getClosestPackage fs modulePath =
     (case findRoot fs modulePath of
        None \<Rightarrow> Inr None
      | Some root \<Rightarrow>
          (case fs root of
             NoFile \<Rightarrow> Inr None
           | Unparsable \<Rightarrow> Inr None
           | ParsedNull \<Rightarrow> Inl null_has_no_name
           | Parsed pkg \<Rightarrow>
               if \<not> truthy (pkg_name pkg) then getClosestPackage fs (butlast root)
               else Inr (Some \<lparr>cp_package = pkg, cp_path = root\<rparr>)))"
  by pat_completeness auto
termination
proof (relation "measure (\<lambda>(fs, modulePath). length modulePath)")
  show "wf (measure (\<lambda>(fs, modulePath). length modulePath))" by simp
next
  fix fs :: filesystem and modulePath root :: dir and pkg
  have len: "findRoot fs start = Some r \<Longrightarrow> r \<noteq> [] \<and> length r \<le> length start" for start r
  proof (induction fs start rule: findRoot.induct)
    case (1 fs start)
    show ?case
    proof (cases "start = [] \<or> fs start \<noteq> NoFile")
      case True
      with "1.prems" show ?thesis by (auto split: if_splits)
    next
      case False
      with "1.prems" have "findRoot fs (butlast start) = Some r" by simp
      with "1.IH" False show ?thesis by fastforce
    qed
  qed
  assume "findRoot fs modulePath = Some root"
  then have "root \<noteq> []" "length root \<le> length modulePath"
    using len by blast+
  then show "((fs, butlast root), (fs, modulePath)) \<in> measure (\<lambda>(fs, modulePath). length modulePath)"
    by (cases root rule: rev_cases) auto
qed

declare findRoot.simps [simp del]
declare getClosestPackage.simps [simp del]

section \<open>The issuer tracer: \<open>getIssuer\<close> and \<open>getIssuerPath\<close>\<close>

text \<open>
  Webpack's modules are objects that refer to each other: a module has a \<^verbatim>\<open>resource\<close> (absent
  or empty for a module without a file: \<open>None\<close>) and an \<^verbatim>\<open>issuer\<close>, a reference to another
  module or nothing. The objects live in a store, from addresses to modules; nothing in
  the store's type keeps an issuer chain from running in a circle.
\<close>

type_synonym addr = nat

record wmodule =
  resource :: "dir option"
  issuer :: "addr option"

type_synonym store = "addr \<Rightarrow> wmodule"

text \<open>A value that is \<^verbatim>\<open>undefined\<close> or a string, used where JavaScript needs a string.\<close>

definition js_string :: "string option \<Rightarrow> string" where
  "js_string v = (case v of None \<Rightarrow> ''undefined'' | Some s \<Rightarrow> s)"

definition name_at_version :: "package_json \<Rightarrow> string" where
  "name_at_version pkg = js_string (pkg_name pkg) @ ''@'' @ js_string (pkg_version pkg)"

text \<open>
  \<^verbatim>\<open>function getIssuer(issuer, ret) {
    ret = ret || [];
    if (issuer && issuer.resource) {
      var pkg = getClosestPackage(issuer.resource);
      if (pkg) {
        var p = pkg.package.name + "@" + pkg.package.version;
        if (ret.indexOf(p) < 0) { ret.push(p); }
      }
      if (issuer.issuer) ret = getIssuer(issuer.issuer, ret);
    }
    return ret;
  }\<close>
  The recursion follows the issuer references of the store and need not end: the result is
  \<open>None\<close> when it does not. An exception of \<^verbatim>\<open>getClosestPackage\<close> leaves the trace: \<open>Some (Inl e)\<close>.
\<close>

definition push_new :: "string \<Rightarrow> string list \<Rightarrow> string list" where
  "push_new p ret = (if p \<in> set ret then ret else ret @ [p])"

definition visit :: "filesystem \<Rightarrow> dir \<Rightarrow> string list \<Rightarrow> error + string list" where
  "visit fs res ret =
     (case getClosestPackage fs res of
        Inl e \<Rightarrow> Inl e
      | Inr None \<Rightarrow> Inr ret
      | Inr (Some pkg) \<Rightarrow> Inr (push_new (name_at_version (cp_package pkg)) ret))"

partial_function (option) getIssuer ::
  "filesystem \<Rightarrow> store \<Rightarrow> addr option \<Rightarrow> string list \<Rightarrow> (error + string list) option" where
  "getIssuer fs h iss ret =
     (case iss of
        None \<Rightarrow> Some (Inr ret)
      | Some a \<Rightarrow>
          (case resource (h a) of
             None \<Rightarrow> Some (Inr ret)
           | Some res \<Rightarrow>
               (case visit fs res ret of
                  Inl e \<Rightarrow> Some (Inl e)
                | Inr ret' \<Rightarrow>
                    (case issuer (h a) of
                       None \<Rightarrow> Some (Inr ret')
                     | Some b \<Rightarrow> getIssuer fs h (Some b) ret'))))"

declare getIssuer.simps [code]

text \<open>\<^verbatim>\<open>Array.prototype.join\<close>.\<close>

fun join :: "string \<Rightarrow> string list \<Rightarrow> string" where
  "join sep [] = []"
| "join sep [x] = x"
| "join sep (x # y # ys) = x @ sep @ join sep (y # ys)"

text \<open>
  \<^verbatim>\<open>function getIssuerPath(issuers) {
    issuers.pop();
    return "~/" + issuers.reverse().join(" -> ");
  }\<close>
\<close>

definition getIssuerPath :: "string list \<Rightarrow> string" where
  "getIssuerPath issuers = ''~/'' @ join '' -> '' (rev (butlast issuers))"

section \<open>The aggregation of the compilation's modules\<close>

text \<open>
  \<^verbatim>\<open>function cleanPathRelativeToContext(modulePath) {
    let cleanedPath = cleanPath(modulePath);
    if (cleanedPath.indexOf(context) === 0) {
      cleanedPath = "." + cleanedPath.replace(context, "");
    }
    return cleanedPath;
  }\<close>
  \<^verbatim>\<open>indexOf(context) === 0\<close> says that \<open>context\<close> is a prefix; \<^verbatim>\<open>replace\<close> then removes this
  first occurrence.
\<close>

definition cleanPathRelativeToContext :: "string \<Rightarrow> string \<Rightarrow> string" where
  "cleanPathRelativeToContext ctx modulePath =
     (let cleanedPath = cleanPath modulePath in
      if take (length ctx) cleanedPath = ctx then ''.'' @ drop (length ctx) cleanedPath
      else cleanedPath)"

text \<open>The path string of a directory, as the plugin receives it.\<close>

definition path_string :: "dir \<Rightarrow> string" where
  "path_string d = (if d = [] then ''/'' else concat (map (\<lambda>seg. CHR ''/'' # seg) d))"

text \<open>
  An entry of \<^verbatim>\<open>modules[pkg.name]\<close>:
  \<^verbatim>\<open>{ version, path: modulePath, issuerPaths: [], issuer }\<close>.
\<close>

record entry =
  version :: "string option"
  path :: string
  issuerPaths :: "string list"
  entry_issuer :: "string option"

text \<open>
  \<^verbatim>\<open>let modules = {};\<close> is an object used as a dictionary from package names to arrays of
  entries: the list of its own properties, in the order of their first assignment (the
  order in which \<^verbatim>\<open>for ... in\<close> enumerates names that are no array indices).

  The object inherits the properties of \<^verbatim>\<open>Object.prototype\<close>. For a package whose name is one
  of these, \<^verbatim>\<open>modules[pkg.name]\<close> is the inherited value, a function or, for \<^verbatim>\<open>__proto__\<close>, the
  prototype itself. The value is truthy, so line 120 keeps it; \<^verbatim>\<open>_.find\<close> finds no entry in
  it; and it has no \<^verbatim>\<open>push\<close>, so line 141 throws a \<^verbatim>\<open>TypeError\<close>.
\<close>

type_synonym modmap = "(string \<times> entry list) list"

definition object_prototype_keys :: "string list" where
  "object_prototype_keys =
     [''constructor'', ''__defineGetter__'', ''__defineSetter__'', ''hasOwnProperty'',
      ''__lookupGetter__'', ''__lookupSetter__'', ''isPrototypeOf'', ''propertyIsEnumerable'',
      ''toString'', ''valueOf'', ''__proto__'', ''toLocaleString'']"

definition push_is_not_a_function :: error where
  "push_is_not_a_function = TypeError ''modules[pkg.name].push is not a function''"

text \<open>The resource of a module's issuer: \<^verbatim>\<open>module.issuer && module.issuer.resource\<close>.\<close>

definition issuerResource :: "store \<Rightarrow> addr \<Rightarrow> dir option" where
  "issuerResource h a = (case issuer (h a) of None \<Rightarrow> None | Some b \<Rightarrow> resource (h b))"

text \<open>
  \<^verbatim>\<open>let issuerPath = module.issuer && module.issuer.resource
      ? getIssuerPath(getIssuer(module)) : null;\<close>
  The trace starts at the module itself. The outer \<open>None\<close> is a trace that does not return,
  \<open>Some (Inl e)\<close> a trace that throws, \<open>Some (Inr None)\<close> the value \<^verbatim>\<open>null\<close>.
\<close>

definition issuerPath :: "filesystem \<Rightarrow> store \<Rightarrow> addr \<Rightarrow> (error + string option) option" where
  "issuerPath fs h a =
     (if issuerResource h a \<noteq> None
      then (case getIssuer fs h (Some a) [] of
              None \<Rightarrow> None
            | Some (Inl e) \<Rightarrow> Some (Inl e)
            | Some (Inr issuers) \<Rightarrow> Some (Inr (Some (getIssuerPath issuers))))
      else Some (Inr None))"

text \<open>
  \<^verbatim>\<open>if (issuerPath && entry.issuerPaths.indexOf(issuerPath) < 0) {
    entry.issuerPaths.push(issuerPath);
  }\<close>
  where \<open>entry\<close> is the first entry of the array with the version \<open>v\<close>; the entry is an
  object of the array and is changed in place.
\<close>

fun add_issuerPath :: "string option \<Rightarrow> string \<Rightarrow> entry list \<Rightarrow> entry list" where
  "add_issuerPath v ip [] = []"
| "add_issuerPath v ip (e # es) =
     (if version e = v
      then (if ip \<in> set (issuerPaths e) then e else e\<lparr>issuerPaths := issuerPaths e @ [ip]\<rparr>) # es
      else e # add_issuerPath v ip es)"

text \<open>
  The body of \<^verbatim>\<open>compilation.modules.forEach(module => { ... })\<close> (lines 98 to 147), for the
  module at address \<open>a\<close>. The result is \<open>None\<close> when the issuer trace does not return,
  \<open>Some (Inl e)\<close> when an exception leaves the body, and \<open>Some (Inr modules')\<close> for the
  dictionary after the body. The issuer path is computed on lines 122 to 125, before the
  entry is looked up and pushed.
\<close>

definition processModule ::
  "filesystem \<Rightarrow> store \<Rightarrow> string \<Rightarrow> modmap \<Rightarrow> addr \<Rightarrow> (error + modmap) option" where
  "processModule fs h ctx modules a =
     (case resource (h a) of
        None \<Rightarrow> Some (Inr modules)
      | Some res \<Rightarrow>
          (case getClosestPackage fs res of
             Inl e \<Rightarrow> Some (Inl e)
           | Inr None \<Rightarrow> Some (Inr modules)
           | Inr (Some closestPackage) \<Rightarrow>
               (let pkg = cp_package closestPackage;
                    packagePath = cp_path closestPackage;
                    modulePath = cleanPathRelativeToContext ctx (path_string packagePath);
                    v = pkg_version pkg;
                    name = js_string (pkg_name pkg);
                    instances = (case map_of modules name of None \<Rightarrow> [] | Some l \<Rightarrow> l)
                in case issuerPath fs h a of
                     None \<Rightarrow> None
                   | Some (Inl e) \<Rightarrow> Some (Inl e)
                   | Some (Inr ipath) \<Rightarrow>
                       if name \<in> set object_prototype_keys then Some (Inl push_is_not_a_function)
                       else
                         (let instances1 =
                                (case find (\<lambda>m. version m = v) instances of
                                   Some e \<Rightarrow> instances
                                 | None \<Rightarrow>
                                     instances @
                                     [\<lparr>version = v, path = modulePath, issuerPaths = [],
                                       entry_issuer =
                                         map_option (\<lambda>r. cleanPathRelativeToContext ctx (path_string r))
                                           (issuerResource h a)\<rparr>]);
                              instances2 =
                                (case ipath of
                                   None \<Rightarrow> instances1
                                 | Some ip \<Rightarrow> add_issuerPath v ip instances1)
                          in Some (Inr (AList.update name instances2 modules))))))"

text \<open>\<^verbatim>\<open>forEach\<close> calls the body for each module in turn; an exception ends the loop.\<close>

fun forEach_module ::
  "filesystem \<Rightarrow> store \<Rightarrow> string \<Rightarrow> modmap \<Rightarrow> addr list \<Rightarrow> (error + modmap) option" where
  "forEach_module fs h ctx modules [] = Some (Inr modules)"
| "forEach_module fs h ctx modules (a # as) =
     (case processModule fs h ctx modules a of
        None \<Rightarrow> None
      | Some (Inl e) \<Rightarrow> Some (Inl e)
      | Some (Inr modules') \<Rightarrow> forEach_module fs h ctx modules' as)"

section \<open>The classification of duplicates\<close>

text \<open>
  The options of the plugin, \<^verbatim>\<open>_.extend({}, defaults, options)\<close>. The exclusion predicate
  is called with \<^verbatim>\<open>Object.assign({ name }, instance)\<close>: the entry and its package name.
\<close>

record options =
  verbose :: bool
  showHelp :: bool
  emitError :: bool
  exclude :: "(string \<Rightarrow> entry \<Rightarrow> bool) option"
  strict :: bool

definition defaults :: options where
  "defaults = \<lparr>verbose = False, showHelp = True, emitError = False, exclude = None, strict = True\<rparr>"

text \<open>
  \<^verbatim>\<open>semver.major(v)\<close> is a function of the semver package: the major number of a version
  string, or a \<^verbatim>\<open>TypeError\<close> for a value that is no version. The functions below take it
  as a parameter \<open>major\<close> on values that are \<^verbatim>\<open>undefined\<close> or a string, with \<open>None\<close> for the
  exception.
\<close>

text \<open>
  \<^verbatim>\<open>const groups = _.groupBy(instances, instance => semver.major(instance.version));\<close>
  The iteratee is called on the instances in order, so the first version that is none
  throws. The groups are the properties of an object whose keys are the major numbers;
  such keys are enumerated in ascending order, and each group keeps the order of the
  instances.
\<close>

fun majors :: "(string option \<Rightarrow> int option) \<Rightarrow> entry list \<Rightarrow> error + int list" where
  "majors major [] = Inr []"
| "majors major (e # es) =
     (case major (version e) of
        None \<Rightarrow> Inl (TypeError (''Invalid Version: '' @ js_string (version e)))
      | Some k \<Rightarrow> (case majors major es of Inl err \<Rightarrow> Inl err | Inr ks \<Rightarrow> Inr (k # ks)))"

definition groupBy_major :: "(string option \<Rightarrow> int option) \<Rightarrow> entry list \<Rightarrow> error + entry list list" where
  "groupBy_major major instances =
     (case majors major instances of
        Inl err \<Rightarrow> Inl err
      | Inr ks \<Rightarrow>
          Inr (map (\<lambda>k. filter (\<lambda>e. major (version e) = Some k) instances) (sort (remdups ks))))"

text \<open>
  The body of \<^verbatim>\<open>for (let name in modules) { ... }\<close> (lines 151 to 188): \<open>Inl\<close> is an exception,
  \<open>Inr None\<close> is \<^verbatim>\<open>continue\<close>, \<open>Inr (Some filtered)\<close> is \<^verbatim>\<open>duplicates[name] = filtered\<close>.
\<close>

definition classifyName ::
  "options \<Rightarrow> (string option \<Rightarrow> int option) \<Rightarrow> string \<Rightarrow> entry list \<Rightarrow> error + entry list option" where
  "classifyName opts major name instances =
     (if length instances \<le> 1 then Inr None
      else
        (case (if \<not> strict opts
               then (case groupBy_major major instances of
                       Inl err \<Rightarrow> Inl err
                     | Inr groups \<Rightarrow> Inr (concat (filter (\<lambda>group. length group > 1) groups)))
               else Inr instances) of
           Inl err \<Rightarrow> Inl err
         | Inr filtered \<Rightarrow>
             if \<not> strict opts \<and> length filtered \<le> 1 then Inr None
             else
               (case exclude opts of
                  None \<Rightarrow> Inr (Some filtered)
                | Some ex \<Rightarrow>
                    (let filtered' = filter (\<lambda>inst. \<not> ex name inst) filtered in
                     if length filtered' \<le> 1 then Inr None else Inr (Some filtered')))))"

fun classify :: "options \<Rightarrow> (string option \<Rightarrow> int option) \<Rightarrow> modmap \<Rightarrow> error + modmap" where
  "classify opts major [] = Inr []"
| "classify opts major ((name, instances) # rest) =
     (case classifyName opts major name instances of
        Inl err \<Rightarrow> Inl err
      | Inr r \<Rightarrow>
          (case classify opts major rest of
             Inl err \<Rightarrow> Inl err
           | Inr duplicates \<Rightarrow>
               Inr (case r of None \<Rightarrow> duplicates | Some filtered \<Rightarrow> (name, filtered) # duplicates)))"

section \<open>The formatting of the diagnostics\<close>

text \<open>
  \<^verbatim>\<open>a.version < b.version\<close> compares two strings by code unit. When a version is \<^verbatim>\<open>undefined\<close>
  the comparison is one of numbers, \<^verbatim>\<open>undefined\<close> becomes \<^verbatim>\<open>NaN\<close>, and the answer is
  \<^verbatim>\<open>false\<close>.
\<close>

definition js_less :: "string option \<Rightarrow> string option \<Rightarrow> bool" where
  "js_less a b =
     (case a of None \<Rightarrow> False | Some x \<Rightarrow> (case b of None \<Rightarrow> False | Some y \<Rightarrow> x < y))"

text \<open>
  \<^verbatim>\<open>duplicates[name].sort((a, b) => (a.version < b.version ? -1 : 1))\<close>: the array is sorted
  with the comparison function of the source. On versions that are strings and differ,
  the comparison is a total order and every sorting algorithm returns the same array.
  When a version is \<^verbatim>\<open>undefined\<close>, the function answers 1 for the pair in either order,
  and the order of the sorted array is left to the engine. The model sorts by insertion,
  taking the elements from the left; an element for which the function answers 1 against
  all those before it stays behind them, so two such instances keep the order of the array.
\<close>

definition compare_version :: "entry \<Rightarrow> entry \<Rightarrow> int" where
  "compare_version a b = (if js_less (version a) (version b) then - 1 else 1)"

fun insert_sorted :: "('a \<Rightarrow> 'a \<Rightarrow> int) \<Rightarrow> 'a \<Rightarrow> 'a list \<Rightarrow> 'a list" where
  "insert_sorted cmp x [] = [x]"
| "insert_sorted cmp x (y # ys) =
     (if cmp x y < 0 then x # y # ys else y # insert_sorted cmp x ys)"

definition array_sort :: "('a \<Rightarrow> 'a \<Rightarrow> int) \<Rightarrow> 'a list \<Rightarrow> 'a list" where
  "array_sort cmp xs = foldl (\<lambda>sorted x. insert_sorted cmp x sorted) [] xs"

text \<open>
  The chalk styles colour the text of a terminal and leave the characters as they are; a
  style applied to a value that is no string converts it with \<^verbatim>\<open>String\<close>.
\<close>

definition chalk :: "string \<Rightarrow> string" where
  "chalk s = s"

text \<open>
  \<^verbatim>\<open>instances.map(version => {
    let str = `${chalk.green.bold(version.version)} ${chalk.white.bold(
      version.issuerPaths.join("\n"))}`;
    if (verbose && version.issuer) { str += ` from ${chalk.white.bold(version.issuer)}`; }
    return str; })\<close>
\<close>

definition formatInstance :: "options \<Rightarrow> entry \<Rightarrow> string" where
  "formatInstance opts e =
     chalk (js_string (version e)) @ '' '' @ chalk (join ''\<newline>'' (issuerPaths e)) @
     (if verbose opts \<and> truthy (entry_issuer e)
      then '' from '' @ chalk (js_string (entry_issuer e)) else [])"

definition help_footer :: string where
  "help_footer =
     ''\<newline>'' @ chalk ''Check how you can resolve duplicate packages: '' @
     ''\<newline>https://github.com/kingback/duplicate-package-checker-webpack-plugin#resolving-duplicate-packages-in-your-bundle\<newline>''"

text \<open>The message of one package name (lines 204 to 225); \<open>is_last\<close> is \<^verbatim>\<open>++i === duplicateCount\<close>.\<close>

definition formatError :: "options \<Rightarrow> bool \<Rightarrow> string \<Rightarrow> entry list \<Rightarrow> string" where
  "formatError opts is_last name instances =
     name @ ''\<newline>'' @ chalk ''  Multiple versions of '' @ chalk name @ chalk '' found:\<newline>'' @
     ''    '' @ join ''\<newline>    '' (map (formatInstance opts) instances) @ ''\<newline>'' @
     (if showHelp opts \<and> is_last then help_footer else [])"

text \<open>
  \<^verbatim>\<open>let sortedDuplicateKeys = Object.keys(duplicates).sort();\<close> and, for each key, the sorted
  instances. The keys of an object differ, and the default order of \<^verbatim>\<open>sort\<close> is the order of
  strings by code unit.
\<close>

definition sortedDuplicates :: "modmap \<Rightarrow> modmap" where
  "sortedDuplicates duplicates =
     map (\<lambda>name. (name, array_sort compare_version (case map_of duplicates name of None \<Rightarrow> [] | Some l \<Rightarrow> l)))
       (sort (map fst duplicates))"

fun formatAll :: "options \<Rightarrow> modmap \<Rightarrow> string list" where
  "formatAll opts [] = []"
| "formatAll opts ((name, instances) # rest) =
     formatError opts (rest = []) name instances # formatAll opts rest"

section \<open>The handler of the emit hook\<close>

text \<open>
  The compilation as the handler reads and changes it; \<open>callbacks\<close> counts the calls of
  \<^verbatim>\<open>callback()\<close>.
\<close>

record compilation =
  ctx :: string
  modules :: "addr list"
  errors :: "string list"
  warnings :: "string list"
  callbacks :: nat

text \<open>
  The handler (lines 80 to 231). The result is \<open>None\<close> when an issuer trace does not
  return, \<open>Inl\<close> when an exception leaves the handler (the compilation is then as it was and
  the callback has not been called), and otherwise the compilation after the pass.
\<close>

definition emit_messages :: "options \<Rightarrow> compilation \<Rightarrow> string list \<Rightarrow> compilation" where
  "emit_messages opts c msgs =
     (if emitError opts then c\<lparr>errors := errors c @ msgs\<rparr> else c\<lparr>warnings := warnings c @ msgs\<rparr>)"

definition handler ::
  "filesystem \<Rightarrow> (string option \<Rightarrow> int option) \<Rightarrow> store \<Rightarrow> options \<Rightarrow> compilation \<Rightarrow> (error + compilation) option" where
  "handler fs major h opts c =
     (case forEach_module fs h (ctx c) [] (modules c) of
        None \<Rightarrow> None
      | Some (Inl err) \<Rightarrow> Some (Inl err)
      | Some (Inr mods) \<Rightarrow>
          Some (case classify opts major mods of
                  Inl err \<Rightarrow> Inl err
                | Inr duplicates \<Rightarrow>
                    (let c' = emit_messages opts c (formatAll opts (sortedDuplicates duplicates))
                     in Inr (c'\<lparr>callbacks := callbacks c' + 1\<rparr>))))"

section \<open>Issuer chains\<close>

text \<open>
  \<open>issuer_chain h a as\<close>: from the module at \<open>a\<close> the issuer references of the store reach,
  through the modules \<open>as\<close> in this order, a module that has no resource or no issuer.
\<close>

inductive issuer_chain :: "store \<Rightarrow> addr \<Rightarrow> addr list \<Rightarrow> bool" for h :: store where
  chain_end: "resource (h a) = None \<or> issuer (h a) = None \<Longrightarrow> issuer_chain h a [a]"
| chain_step: "resource (h a) \<noteq> None \<Longrightarrow> issuer (h a) = Some b \<Longrightarrow> issuer_chain h b as \<Longrightarrow>
     issuer_chain h a (a # as)"

text \<open>
  The \<open>name@version\<close> of the package that owns a module, if the module has one; \<open>Inl\<close> when the
  locator throws. The packages of a list of modules: the exception of the first module
  whose locator throws, or else the \<open>name@version\<close> strings in the order of the modules.
\<close>

definition module_package :: "filesystem \<Rightarrow> store \<Rightarrow> addr \<Rightarrow> error + string option" where
  "module_package fs h a =
     (case resource (h a) of
        None \<Rightarrow> Inr None
      | Some res \<Rightarrow>
          (case getClosestPackage fs res of
             Inl e \<Rightarrow> Inl e
           | Inr r \<Rightarrow> Inr (map_option (\<lambda>cp. name_at_version (cp_package cp)) r)))"

fun chain_packages :: "filesystem \<Rightarrow> store \<Rightarrow> addr list \<Rightarrow> error + string list" where
  "chain_packages fs h [] = Inr []"
| "chain_packages fs h (a # as) =
     (case module_package fs h a of
        Inl e \<Rightarrow> Inl e
      | Inr p \<Rightarrow>
          (case chain_packages fs h as of
             Inl e \<Rightarrow> Inl e
           | Inr ps \<Rightarrow> Inr (case p of None \<Rightarrow> ps | Some s \<Rightarrow> s # ps)))"


section \<open>An example project\<close>

text \<open>
  The project \<^verbatim>\<open>/app\<close> depends on \<open>a@1.0.0\<close>, \<open>b@1.0.0\<close> and \<open>c@1.0.0\<close>; \<open>b\<close> brings its own
  \<open>a@2.0.0\<close>. The directory \<^verbatim>\<open>lib\<close> of \<open>c\<close> holds a \<^verbatim>\<open>package.json\<close> without a name, its
  directory \<^verbatim>\<open>lib/util\<close> one whose name is the empty string, and the \<^verbatim>\<open>package.json\<close> of
  \<^verbatim>\<open>/app/node_modules/d\<close> cannot be parsed.
\<close>

definition ex_fs :: filesystem where
  "ex_fs d =
     (if d = [''app''] then Parsed \<lparr>pkg_name = Some ''app'', pkg_version = Some ''0.1.0''\<rparr>
      else if d = [''app'', ''node_modules'', ''a'']
        then Parsed \<lparr>pkg_name = Some ''a'', pkg_version = Some ''1.0.0''\<rparr>
      else if d = [''app'', ''node_modules'', ''b'']
        then Parsed \<lparr>pkg_name = Some ''b'', pkg_version = Some ''1.0.0''\<rparr>
      else if d = [''app'', ''node_modules'', ''b'', ''node_modules'', ''a'']
        then Parsed \<lparr>pkg_name = Some ''a'', pkg_version = Some ''2.0.0''\<rparr>
      else if d = [''app'', ''node_modules'', ''c'']
        then Parsed \<lparr>pkg_name = Some ''c'', pkg_version = Some ''1.0.0''\<rparr>
      else if d = [''app'', ''node_modules'', ''c'', ''lib'']
        then Parsed \<lparr>pkg_name = None, pkg_version = Some ''1.0.0''\<rparr>
      else if d = [''app'', ''node_modules'', ''c'', ''lib'', ''util'']
        then Parsed \<lparr>pkg_name = Some [], pkg_version = None\<rparr>
      else if d = [''app'', ''node_modules'', ''d''] then Unparsable
      else NoFile)"

text \<open>
  Module 0 is the entry of the project; it issues module 1 of \<open>b\<close> and module 3 of \<open>a@1.0.0\<close>.
  Module 1 issues module 2 of \<open>c\<close> and module 4 of \<open>a@2.0.0\<close>; module 2 issues module 5,
  another file of \<open>a@1.0.0\<close>.
\<close>

definition ex_store :: store where
  "ex_store a =
     (if a = 0 then \<lparr>resource = Some [''app'', ''src'', ''index.js''], issuer = None\<rparr>
      else if a = 1
        then \<lparr>resource = Some [''app'', ''node_modules'', ''b'', ''index.js''], issuer = Some 0\<rparr>
      else if a = 2
        then \<lparr>resource = Some [''app'', ''node_modules'', ''c'', ''lib'', ''index.js''], issuer = Some 1\<rparr>
      else if a = 3
        then \<lparr>resource = Some [''app'', ''node_modules'', ''a'', ''index.js''], issuer = Some 0\<rparr>
      else if a = 4
        then \<lparr>resource = Some [''app'', ''node_modules'', ''b'', ''node_modules'', ''a'', ''index.js''],
               issuer = Some 1\<rparr>
      else if a = 5
        then \<lparr>resource = Some [''app'', ''node_modules'', ''a'', ''util.js''], issuer = Some 2\<rparr>
      else \<lparr>resource = None, issuer = None\<rparr>)"







section \<open>The nearest named package, as the specification words it\<close>

text \<open>
  The directories the search looks at, nearest first: the path itself and its ancestors
  below the top directory.
\<close>

definition ancestors :: "dir \<Rightarrow> dir list" where
  "ancestors p = map (\<lambda>k. take k p) (rev [1..<Suc (length p)])"

text \<open>
  Metadata that parses to an object and has no non-empty name field: the name is absent
  or the empty string.
\<close>

definition anonymous :: "filesystem \<Rightarrow> dir \<Rightarrow> bool" where
  "anonymous fs d =
     (case fs d of
        Parsed pkg \<Rightarrow> (case pkg_name pkg of None \<Rightarrow> True | Some s \<Rightarrow> s = [])
      | _ \<Rightarrow> False)"

text \<open>
  Walking upwards, directories without metadata and directories with anonymous metadata
  are passed over. The first other directory decides, if there is one.
\<close>

definition decisive :: "filesystem \<Rightarrow> dir \<Rightarrow> dir option" where
  "decisive fs p =
     (case dropWhile (\<lambda>d. fs d = NoFile \<or> anonymous fs d) (ancestors p) of
        [] \<Rightarrow> None
      | d # _ \<Rightarrow> Some d)"

text \<open>
  Metadata with a name is the result; metadata that cannot be parsed gives none, and so
  does a walk that passes over every directory.
\<close>

definition nearest_named :: "filesystem \<Rightarrow> dir \<Rightarrow> closest_package option" where
  "nearest_named fs p =
     (case decisive fs p of
        None \<Rightarrow> None
      | Some d \<Rightarrow> (case fs d of Parsed pkg \<Rightarrow> Some \<lparr>cp_package = pkg, cp_path = d\<rparr> | _ \<Rightarrow> None))"

text \<open>The walk ends at metadata that parses to \<^verbatim>\<open>null\<close>.\<close>

definition null_decides :: "filesystem \<Rightarrow> dir \<Rightarrow> bool" where
  "null_decides fs p = (case decisive fs p of None \<Rightarrow> False | Some d \<Rightarrow> fs d = ParsedNull)"

text \<open>
  The first example project where the \<^verbatim>\<open>package.json\<close> of \<open>b\<close> holds the JSON text \<^verbatim>\<open>null\<close>.
\<close>

definition ex_null_fs :: filesystem where
  "ex_null_fs d = (if d = [''app'', ''node_modules'', ''b''] then ParsedNull else ex_fs d)"

section \<open>Invariants of the aggregation\<close>

text \<open>
  What the body of the loop does to the array of one package: the entry of the version is
  found or pushed, then the issuer path is pushed onto it.
\<close>

definition found_or_pushed :: "string option \<Rightarrow> entry \<Rightarrow> entry list \<Rightarrow> entry list" where
  "found_or_pushed v new instances =
     (case find (\<lambda>m. version m = v) instances of
        Some e \<Rightarrow> instances
      | None \<Rightarrow> instances @ [new])"

definition entries_after :: "string option \<Rightarrow> entry \<Rightarrow> string option \<Rightarrow> entry list \<Rightarrow> entry list" where
  "entries_after v new ipath instances =
     (case ipath of
        None \<Rightarrow> found_or_pushed v new instances
      | Some ip \<Rightarrow> add_issuerPath v ip (found_or_pushed v new instances))"

text \<open>Within the array of one package, versions differ and each entry's issuer paths differ.\<close>

definition entries_ok :: "entry list \<Rightarrow> bool" where
  "entries_ok es = (distinct (map version es) \<and> list_all (\<lambda>e. distinct (issuerPaths e)) es)"

definition modules_ok :: "modmap \<Rightarrow> bool" where
  "modules_ok M = (distinct (map fst M) \<and> list_all (\<lambda>(n, es). es \<noteq> [] \<and> entries_ok es) M)"

text \<open>
  \<open>grows e e'\<close>: \<open>e'\<close> is the entry \<open>e\<close> with issuer paths pushed behind those it had.
  \<open>entries_grow es es'\<close>: every entry of \<open>es\<close> is still at its place in \<open>es'\<close> and has grown.
\<close>

definition grows :: "entry \<Rightarrow> entry \<Rightarrow> bool" where
  "grows e e' =
     (version e' = version e \<and> path e' = path e \<and> entry_issuer e' = entry_issuer e \<and>
      take (length (issuerPaths e)) (issuerPaths e') = issuerPaths e)"

definition entries_grow :: "entry list \<Rightarrow> entry list \<Rightarrow> bool" where
  "entries_grow es es' = list_all2 grows es (take (length es) es')"

definition modules_grow :: "modmap \<Rightarrow> modmap \<Rightarrow> bool" where
  "modules_grow M M' =
     list_all (\<lambda>(n, es). case map_of M' n of None \<Rightarrow> False | Some es' \<Rightarrow> entries_grow es es') M"

text \<open>
  \<open>contributed fs h M a\<close>: if the module at \<open>a\<close> has a resource that belongs to a package,
  then \<open>M\<close> has an entry of the package's name and version, and the module's rendered
  issuer path, if it has one, is among the issuer paths of that entry.
\<close>

definition contributed :: "filesystem \<Rightarrow> store \<Rightarrow> modmap \<Rightarrow> addr \<Rightarrow> bool" where
  "contributed fs h M a =
     (case resource (h a) of
        None \<Rightarrow> True
      | Some res \<Rightarrow>
          (case getClosestPackage fs res of
             Inr (Some cp) \<Rightarrow>
               (case map_of M (js_string (pkg_name (cp_package cp))) of
                  None \<Rightarrow> False
                | Some es \<Rightarrow>
                    list_ex (\<lambda>e. version e = pkg_version (cp_package cp) \<and>
                                (case issuerPath fs h a of
                                   Some (Inr (Some ip)) \<Rightarrow> ip \<in> set (issuerPaths e)
                                 | _ \<Rightarrow> True)) es)
           | _ \<Rightarrow> True))"

text \<open>The array of a package name, empty when the name is not a key.\<close>

definition lookup_entries :: "modmap \<Rightarrow> string \<Rightarrow> entry list" where
  "lookup_entries M n = (case map_of M n of None \<Rightarrow> [] | Some l \<Rightarrow> l)"


section \<open>The example project, aggregated\<close>


definition ex_modules :: modmap where
  "ex_modules =
     [(''app'', [\<lparr>version = Some ''0.1.0'', path = ''.'', issuerPaths = [], entry_issuer = None\<rparr>]),
      (''b'', [\<lparr>version = Some ''1.0.0'', path = ''./~/b'', issuerPaths = [''~/b@1.0.0''],
                entry_issuer = Some ''./src/index.js''\<rparr>]),
      (''c'', [\<lparr>version = Some ''1.0.0'', path = ''./~/c'', issuerPaths = [''~/b@1.0.0 -> c@1.0.0''],
                entry_issuer = Some ''./~/b/index.js''\<rparr>]),
      (''a'', [\<lparr>version = Some ''1.0.0'', path = ''./~/a'',
                 issuerPaths = [''~/a@1.0.0'', ''~/b@1.0.0 -> c@1.0.0 -> a@1.0.0''],
                 entry_issuer = Some ''./src/index.js''\<rparr>,
               \<lparr>version = Some ''2.0.0'', path = ''./~/b/~/a'', issuerPaths = [''~/b@1.0.0 -> a@2.0.0''],
                 entry_issuer = Some ''./~/b/index.js''\<rparr>])]"


definition ex_compilation :: compilation where
  "ex_compilation =
     \<lparr>ctx = ''/app'', modules = [0, 1, 2, 3, 4, 5], errors = [], warnings = [], callbacks = 0\<rparr>"

section \<open>A model of \<open>semver.major\<close>\<close>

text \<open>
  Modelled from the semver package, which is not part of the repository: \<^verbatim>\<open>semver.major(v)\<close>
  is \<^verbatim>\<open>new SemVer(v).major\<close>. The constructor throws a \<^verbatim>\<open>TypeError\<close> for a string of more
  than 256 characters and for a string that, trimmed, does not match
  \<^verbatim>\<open>^v?(0|[1-9]\d*)\.(0|[1-9]\d*)\.(0|[1-9]\d*)(-pre)?(\+build)?$\<close>, where \<open>pre\<close> is a list of
  identifiers separated by dots, each numeric without leading zero or of letters, digits
  and hyphens with at least one non-digit, and \<open>build\<close> is a list of non-empty identifiers of
  letters, digits and hyphens; it throws as well for a number above
  \<^verbatim>\<open>Number.MAX_SAFE_INTEGER\<close>, and for a value that is no string, such as \<^verbatim>\<open>undefined\<close>. The
  theorems on the classification hold for every function \<open>major\<close>; this model serves the
  examples.
\<close>

definition is_digit :: "char \<Rightarrow> bool" where
  "is_digit c = (CHR ''0'' \<le> c \<and> c \<le> CHR ''9'')"

definition is_ident_char :: "char \<Rightarrow> bool" where
  "is_ident_char c =
     (is_digit c \<or> (CHR ''a'' \<le> c \<and> c \<le> CHR ''z'') \<or> (CHR ''A'' \<le> c \<and> c \<le> CHR ''Z'') \<or>
      c = CHR ''-'')"

definition is_space :: "char \<Rightarrow> bool" where
  "is_space c = (c = CHR '' '' \<or> (CHR 0x09 \<le> c \<and> c \<le> CHR 0x0D))"

definition trim :: "string \<Rightarrow> string" where
  "trim s = rev (dropWhile is_space (rev (dropWhile is_space s)))"

fun split_on :: "char \<Rightarrow> string \<Rightarrow> string list" where
  "split_on c [] = [[]]"
| "split_on c (x # xs) =
     (if x = c then [] # split_on c xs
      else (case split_on c xs of [] \<Rightarrow> [[x]] | y # ys \<Rightarrow> (x # y) # ys))"

definition numeric_identifier :: "string \<Rightarrow> bool" where
  "numeric_identifier ds = (ds \<noteq> [] \<and> list_all is_digit ds \<and> (ds = ''0'' \<or> hd ds \<noteq> CHR ''0''))"

definition number_of :: "string \<Rightarrow> int" where
  "number_of ds = foldl (\<lambda>n c. 10 * n + (of_char c - 48)) 0 ds"

definition prerelease_ok :: "string \<Rightarrow> bool" where
  "prerelease_ok s =
     list_all (\<lambda>i. i \<noteq> [] \<and> list_all is_ident_char i \<and> (numeric_identifier i \<or> \<not> list_all is_digit i))
       (split_on CHR ''.'' s)"

definition build_ok :: "string \<Rightarrow> bool" where
  "build_ok s = list_all (\<lambda>i. i \<noteq> [] \<and> list_all is_ident_char i) (split_on CHR ''.'' s)"

definition suffix_ok :: "string \<Rightarrow> bool" where
  "suffix_ok r =
     (case r of
        [] \<Rightarrow> True
      | c # rest \<Rightarrow>
          if c = CHR ''-''
          then prerelease_ok (takeWhile (\<lambda>x. x \<noteq> CHR ''+'') rest) \<and>
               (case dropWhile (\<lambda>x. x \<noteq> CHR ''+'') rest of [] \<Rightarrow> True | _ # b \<Rightarrow> build_ok b)
          else if c = CHR ''+'' then build_ok rest
          else False)"

definition max_safe_integer :: int where
  "max_safe_integer = 9007199254740991"

definition semver_major_string :: "string \<Rightarrow> int option" where
  "semver_major_string v =
     (if length v > 256 then None
      else
        (let t = trim v;
             t1 = (case t of [] \<Rightarrow> [] | c # r \<Rightarrow> if c = CHR ''v'' then r else t);
             ma = takeWhile is_digit t1; r1 = dropWhile is_digit t1;
             mi = takeWhile is_digit (drop 1 r1); r2 = dropWhile is_digit (drop 1 r1);
             pa = takeWhile is_digit (drop 1 r2); r3 = dropWhile is_digit (drop 1 r2)
         in if take 1 r1 = ''.'' \<and> take 1 r2 = ''.'' \<and>
               numeric_identifier ma \<and> numeric_identifier mi \<and> numeric_identifier pa \<and>
               suffix_ok r3 \<and>
               number_of ma \<le> max_safe_integer \<and> number_of mi \<le> max_safe_integer \<and>
               number_of pa \<le> max_safe_integer
            then Some (number_of ma) else None))"

definition semver_major :: "string option \<Rightarrow> int option" where
  "semver_major v = (case v of None \<Rightarrow> None | Some s \<Rightarrow> semver_major_string s)"

section \<open>Groups by major version\<close>

text \<open>The instances of an array that share the major number \<open>k\<close>.\<close>

definition major_group :: "(string option \<Rightarrow> int option) \<Rightarrow> entry list \<Rightarrow> int \<Rightarrow> entry set" where
  "major_group major es k = {e \<in> set es. major (version e) = Some k}"

text \<open>
  The value of \<^verbatim>\<open>filtered\<close> after lines 160 to 169, when no version throws: the groups of
  two or more instances, concatenated in the order of their keys.
\<close>

definition relaxed_filtered :: "(string option \<Rightarrow> int option) \<Rightarrow> entry list \<Rightarrow> entry list" where
  "relaxed_filtered major es =
     concat (filter (\<lambda>group. 1 < length group)
       (map (\<lambda>k. filter (\<lambda>e. major (version e) = Some k) es)
          (sort (remdups (List.map_filter (\<lambda>e. major (version e)) es)))))"

section \<open>A second example project: three versions of one package\<close>

text \<open>
  The project depends on \<open>b@1.0.0\<close>, on \<open>x\<close>, which brings \<open>b@1.5.0\<close>, and on \<open>y\<close>, which brings
  \<open>b@2.0.0\<close>. The compilation lists the module of \<open>b@2.0.0\<close> first and that of \<open>b@1.0.0\<close> last.
\<close>

definition ex2_fs :: filesystem where
  "ex2_fs d =
     (if d = [''app''] then Parsed \<lparr>pkg_name = Some ''app'', pkg_version = Some ''0.1.0''\<rparr>
      else if d = [''app'', ''node_modules'', ''b'']
        then Parsed \<lparr>pkg_name = Some ''b'', pkg_version = Some ''1.0.0''\<rparr>
      else if d = [''app'', ''node_modules'', ''x'']
        then Parsed \<lparr>pkg_name = Some ''x'', pkg_version = Some ''3.1.0''\<rparr>
      else if d = [''app'', ''node_modules'', ''x'', ''node_modules'', ''b'']
        then Parsed \<lparr>pkg_name = Some ''b'', pkg_version = Some ''1.5.0''\<rparr>
      else if d = [''app'', ''node_modules'', ''y'']
        then Parsed \<lparr>pkg_name = Some ''y'', pkg_version = Some ''0.4.2''\<rparr>
      else if d = [''app'', ''node_modules'', ''y'', ''node_modules'', ''b'']
        then Parsed \<lparr>pkg_name = Some ''b'', pkg_version = Some ''2.0.0''\<rparr>
      else NoFile)"

definition ex2_store :: store where
  "ex2_store a =
     (if a = 0 then \<lparr>resource = Some [''app'', ''src'', ''index.js''], issuer = None\<rparr>
      else if a = 1
        then \<lparr>resource = Some [''app'', ''node_modules'', ''x'', ''index.js''], issuer = Some 0\<rparr>
      else if a = 2
        then \<lparr>resource = Some [''app'', ''node_modules'', ''y'', ''index.js''], issuer = Some 0\<rparr>
      else if a = 3
        then \<lparr>resource = Some [''app'', ''node_modules'', ''b'', ''index.js''], issuer = Some 0\<rparr>
      else if a = 4
        then \<lparr>resource = Some [''app'', ''node_modules'', ''x'', ''node_modules'', ''b'', ''index.js''],
               issuer = Some 1\<rparr>
      else if a = 5
        then \<lparr>resource = Some [''app'', ''node_modules'', ''y'', ''node_modules'', ''b'', ''index.js''],
               issuer = Some 2\<rparr>
      else \<lparr>resource = None, issuer = None\<rparr>)"

definition ex2_compilation :: compilation where
  "ex2_compilation =
     \<lparr>ctx = ''/app'', modules = [0, 1, 2, 5, 4, 3], errors = [], warnings = [], callbacks = 0\<rparr>"

definition ex2_b_100 :: entry where
  "ex2_b_100 = \<lparr>version = Some ''1.0.0'', path = ''./~/b'', issuerPaths = [''~/b@1.0.0''],
                 entry_issuer = Some ''./src/index.js''\<rparr>"

definition ex2_b_150 :: entry where
  "ex2_b_150 = \<lparr>version = Some ''1.5.0'', path = ''./~/x/~/b'', issuerPaths = [''~/x@3.1.0 -> b@1.5.0''],
                 entry_issuer = Some ''./~/x/index.js''\<rparr>"

definition ex2_b_200 :: entry where
  "ex2_b_200 = \<lparr>version = Some ''2.0.0'', path = ''./~/y/~/b'', issuerPaths = [''~/y@0.4.2 -> b@2.0.0''],
                 entry_issuer = Some ''./~/y/index.js''\<rparr>"

definition ex2_modules :: modmap where
  "ex2_modules =
     [(''app'', [\<lparr>version = Some ''0.1.0'', path = ''.'', issuerPaths = [], entry_issuer = None\<rparr>]),
      (''x'', [\<lparr>version = Some ''3.1.0'', path = ''./~/x'', issuerPaths = [''~/x@3.1.0''],
                entry_issuer = Some ''./src/index.js''\<rparr>]),
      (''y'', [\<lparr>version = Some ''0.4.2'', path = ''./~/y'', issuerPaths = [''~/y@0.4.2''],
                entry_issuer = Some ''./src/index.js''\<rparr>]),
      (''b'', [ex2_b_200, ex2_b_150, ex2_b_100])]"

definition relaxed :: options where
  "relaxed = defaults\<lparr>strict := False\<rparr>"

text \<open>
  The second example project with the package \<open>z\<close> as well: the project depends on \<open>z@1.0.0\<close>,
  and \<open>x\<close> brings a copy of \<open>z\<close> whose \<^verbatim>\<open>package.json\<close> gives the version \<open>2.0\<close>.
\<close>

definition ex4_fs :: filesystem where
  "ex4_fs d =
     (if d = [''app'', ''node_modules'', ''z'']
        then Parsed \<lparr>pkg_name = Some ''z'', pkg_version = Some ''1.0.0''\<rparr>
      else if d = [''app'', ''node_modules'', ''x'', ''node_modules'', ''z'']
        then Parsed \<lparr>pkg_name = Some ''z'', pkg_version = Some ''2.0''\<rparr>
      else ex2_fs d)"

definition ex4_store :: store where
  "ex4_store a =
     (if a = 6 then \<lparr>resource = Some [''app'', ''node_modules'', ''z'', ''index.js''], issuer = Some 0\<rparr>
      else if a = 7
        then \<lparr>resource = Some [''app'', ''node_modules'', ''x'', ''node_modules'', ''z'', ''index.js''],
               issuer = Some 1\<rparr>
      else ex2_store a)"

definition ex4_compilation :: compilation where
  "ex4_compilation = ex2_compilation\<lparr>modules := [0, 1, 2, 5, 4, 3, 6, 7]\<rparr>"

definition ex4_modules :: modmap where
  "ex4_modules =
     [(''app'', [\<lparr>version = Some ''0.1.0'', path = ''.'', issuerPaths = [], entry_issuer = None\<rparr>]),
      (''x'', [\<lparr>version = Some ''3.1.0'', path = ''./~/x'', issuerPaths = [''~/x@3.1.0''],
                entry_issuer = Some ''./src/index.js''\<rparr>]),
      (''y'', [\<lparr>version = Some ''0.4.2'', path = ''./~/y'', issuerPaths = [''~/y@0.4.2''],
                entry_issuer = Some ''./src/index.js''\<rparr>]),
      (''b'', [ex2_b_200, ex2_b_150, ex2_b_100]),
      (''z'', [\<lparr>version = Some ''1.0.0'', path = ''./~/z'', issuerPaths = [''~/z@1.0.0''],
                entry_issuer = Some ''./src/index.js''\<rparr>,
               \<lparr>version = Some ''2.0'', path = ''./~/x/~/z'', issuerPaths = [''~/x@3.1.0 -> z@2.0''],
                entry_issuer = Some ''./~/x/index.js''\<rparr>])]"

text \<open>An exclusion predicate that rejects the instances of version \<open>1.5.0\<close>.\<close>

definition ex_exclude_150 :: "string \<Rightarrow> entry \<Rightarrow> bool" where
  "ex_exclude_150 n inst = (version inst = Some ''1.5.0'')"

section \<open>The exclusion, as the specification words it\<close>

text \<open>
  The predicate is applied to each instance that the classification has kept, together
  with the package name; the instances for which it holds are dropped; a name with at
  most one instance left is skipped.
\<close>

definition exclude_stage :: "(string \<Rightarrow> entry \<Rightarrow> bool) \<Rightarrow> modmap \<Rightarrow> modmap" where
  "exclude_stage ex D =
     filter (\<lambda>(n, F). 1 < length F) (map (\<lambda>(n, F). (n, filter (\<lambda>inst. \<not> ex n inst) F)) D)"

text \<open>An exclusion predicate for the examples: it rejects the instances of version \<open>2.0.0\<close>.\<close>

definition ex_exclude :: "string \<Rightarrow> entry \<Rightarrow> bool" where
  "ex_exclude n inst = (version inst = Some ''2.0.0'')"

section \<open>A third example project: a version that is none\<close>

text \<open>
  The first example project, where the \<^verbatim>\<open>package.json\<close> of the copy of \<open>a\<close> below \<open>b\<close> gives the
  version \<open>2.0\<close>.
\<close>

definition ex3_fs :: filesystem where
  "ex3_fs d =
     (if d = [''app'', ''node_modules'', ''b'', ''node_modules'', ''a'']
      then Parsed \<lparr>pkg_name = Some ''a'', pkg_version = Some ''2.0''\<rparr>
      else ex_fs d)"

section \<open>Diagnostics that differ in the order of issuer paths only\<close>










section \<open>What the aggregation records, whatever the order\<close>







section \<open>Path normalisation is idempotent unless \<open>node_modules\<close> segments are adjacent\<close>

lemma cleanPath_Cons_nonsep:
  "cleanPath t = x # r \<Longrightarrow> \<not> is_sep x \<Longrightarrow> \<exists>t'. t = x # t' \<and> cleanPath t' = r"
  by (cases t) (auto split: if_splits simp: is_sep_def)

lemma cleanPath_Cons_sep:
  "cleanPath t = x # r \<Longrightarrow> is_sep x \<Longrightarrow> \<exists>y t'. t = y # t' \<and> is_sep y"
  by (cases t) (auto split: if_splits simp: is_sep_def)

lemma cleanPath_append_nonsep:
  "list_all (\<lambda>c. \<not> is_sep c) w \<Longrightarrow> cleanPath t = w @ u \<Longrightarrow> \<exists>t'. t = w @ t' \<and> cleanPath t' = u"
proof (induction w arbitrary: t)
  case Nil
  then show ?case by simp
next
  case (Cons x w)
  from Cons.prems obtain t1 where t1: "t = x # t1" "cleanPath t1 = w @ u"
    using cleanPath_Cons_nonsep[of t x "w @ u"] by auto
  with Cons.IH[of t1] Cons.prems show ?case by auto
qed

lemma nm_head_iff: "nm_head s \<longleftrightarrow> (\<exists>d r. s = ''node_modules'' @ d # r \<and> is_sep d)"
proof
  assume h: "nm_head s"
  then obtain d r where dr: "drop 12 s = d # r" "is_sep d"
    by (auto simp: nm_head_def split: list.splits)
  have "s = take 12 s @ drop 12 s" by simp
  with h dr show "\<exists>d r. s = ''node_modules'' @ d # r \<and> is_sep d"
    unfolding nm_head_def by metis
next
  assume "\<exists>d r. s = ''node_modules'' @ d # r \<and> is_sep d"
  then show "nm_head s" by (auto simp: nm_head_def)
qed

text \<open>
  A match in the normalised string comes from a match at the same place of the input:
  the characters of \<open>node_modules\<close> are copied, and a separator of the output stands for a
  separator of the input.
\<close>

lemma nm_head_cleanPath:
  assumes "nm_head (cleanPath t)"
  shows "nm_head t"
proof -
  from assms obtain d r where c: "cleanPath t = ''node_modules'' @ d # r" and d: "is_sep d"
    unfolding nm_head_iff by blast
  have "list_all (\<lambda>c. \<not> is_sep c) ''node_modules''"
    by (simp add: is_sep_def)
  from cleanPath_append_nonsep[OF this c]
  obtain t' where t': "t = ''node_modules'' @ t'" "cleanPath t' = d # r"
    by blast
  from cleanPath_Cons_sep[OF t'(2) d] obtain y t'' where "t' = y # t''" "is_sep y" by blast
  with t' show ?thesis unfolding nm_head_iff by blast
qed

lemma adjacent_nm_drop: "adjacent_nm (drop n s) \<Longrightarrow> adjacent_nm s"
proof (induction s arbitrary: n)
  case Nil
  then show ?case by simp
next
  case (Cons c cs)
  then show ?case by (cases n) auto
qed

lemma cleanPath_marker: "cleanPath (''/~/'' @ r) = ''/~'' @ cleanPath (CHR ''/'' # r)"
  by (simp add: is_sep_def nm_head_def)

text \<open>
  C4, as amended. Normalising twice is normalising once for every path in which no two
  \<open>node_modules\<close> segments share the separator between them.
\<close>

theorem cleanPath_idempotent_unless_adjacent:
  "\<not> adjacent_nm p \<Longrightarrow> cleanPath (cleanPath p) = cleanPath p"
proof (induction p rule: cleanPath.induct)
  case 1
  then show ?case by simp
next
  case (2 c cs)
  show ?case
  proof (cases "is_sep c \<and> nm_head cs")
    case True
    define r where "r = cleanPath (drop 13 cs)"
    from True "2.prems" have na: "\<not> nm_head (drop 13 cs)" by simp
    have "\<not> adjacent_nm (drop 13 cs)"
      using "2.prems" adjacent_nm_drop[of 13 cs] by auto
    with "2.IH"(1) True have ih: "cleanPath r = r" by (simp add: r_def)
    from na have "\<not> nm_head r" using nm_head_cleanPath r_def by blast
    then have sl: "cleanPath (CHR ''/'' # r) = CHR ''/'' # r"
      using ih by simp
    have cp: "cleanPath (c # cs) = ''/~/'' @ r" using True by (simp add: r_def)
    have "cleanPath (''/~/'' @ r) = ''/~/'' @ r"
      by (simp only: cleanPath_marker sl) simp
    then show ?thesis by (simp only: cp)
  next
    case False
    with "2.prems" have "\<not> adjacent_nm cs" by simp
    with "2.IH"(2) False have ih: "cleanPath (cleanPath cs) = cleanPath cs" by simp
    have n: "\<not> (is_sep c \<and> nm_head (cleanPath cs))" using False nm_head_cleanPath by blast
    have cp: "cleanPath (c # cs) = c # cleanPath cs" using False by auto
    have "cleanPath (c # cleanPath cs) = c # cleanPath (cleanPath cs)" using n by auto
    then show ?thesis by (simp only: cp ih)
  qed
qed

theorem cleanPath_idempotent_witness:
  "\<not> adjacent_nm ''/app/node_modules/b/node_modules/a'' \<and>
   cleanPath (cleanPath ''/app/node_modules/b/node_modules/a'') =
   cleanPath ''/app/node_modules/b/node_modules/a''"
proof -
  have h: "\<not> adjacent_nm ''/app/node_modules/b/node_modules/a''"
    by (simp add: is_sep_def nm_head_def)
  from cleanPath_idempotent_unless_adjacent[OF h] h show ?thesis by blast
qed

text \<open>
  The claim as stated fails where a \<open>node_modules\<close> directory lies directly in another: the
  first pass leaves the second segment, whose leading separator the first match has used
  up, and the second pass replaces it.
\<close>

theorem cleanPath_twice_differs:
  "cleanPath ''/app/node_modules/node_modules/a'' = ''/app/~/node_modules/a'' \<and>
   cleanPath (cleanPath ''/app/node_modules/node_modules/a'') = ''/app/~/~/a'' \<and>
   cleanPath (cleanPath ''/app/node_modules/node_modules/a'') \<noteq>
   cleanPath ''/app/node_modules/node_modules/a''"
  by (simp add: is_sep_def nm_head_def)

section \<open>The example project, evaluated\<close>

lemma ex_closest_0:
  "getClosestPackage ex_fs [''app'', ''src'', ''index.js''] =
   Inr (Some \<lparr>cp_package = \<lparr>pkg_name = Some ''app'', pkg_version = Some ''0.1.0''\<rparr>, cp_path = [''app'']\<rparr>)"
  by (simp add: getClosestPackage.simps findRoot.simps ex_fs_def truthy_def)

lemma ex_closest_1:
  "getClosestPackage ex_fs [''app'', ''node_modules'', ''b'', ''index.js''] =
   Inr (Some \<lparr>cp_package = \<lparr>pkg_name = Some ''b'', pkg_version = Some ''1.0.0''\<rparr>,
               cp_path = [''app'', ''node_modules'', ''b'']\<rparr>)"
  by (simp add: getClosestPackage.simps findRoot.simps ex_fs_def truthy_def)

lemma ex_closest_2:
  "getClosestPackage ex_fs [''app'', ''node_modules'', ''c'', ''lib'', ''index.js''] =
   Inr (Some \<lparr>cp_package = \<lparr>pkg_name = Some ''c'', pkg_version = Some ''1.0.0''\<rparr>,
               cp_path = [''app'', ''node_modules'', ''c'']\<rparr>)"
  by (simp add: getClosestPackage.simps findRoot.simps ex_fs_def truthy_def)

lemma ex_closest_3:
  "getClosestPackage ex_fs [''app'', ''node_modules'', ''a'', ''index.js''] =
   Inr (Some \<lparr>cp_package = \<lparr>pkg_name = Some ''a'', pkg_version = Some ''1.0.0''\<rparr>,
               cp_path = [''app'', ''node_modules'', ''a'']\<rparr>)"
  by (simp add: getClosestPackage.simps findRoot.simps ex_fs_def truthy_def)

lemma ex_closest_4:
  "getClosestPackage ex_fs [''app'', ''node_modules'', ''b'', ''node_modules'', ''a'', ''index.js''] =
   Inr (Some \<lparr>cp_package = \<lparr>pkg_name = Some ''a'', pkg_version = Some ''2.0.0''\<rparr>,
               cp_path = [''app'', ''node_modules'', ''b'', ''node_modules'', ''a'']\<rparr>)"
  by (simp add: getClosestPackage.simps findRoot.simps ex_fs_def truthy_def)

lemma ex_closest_5:
  "getClosestPackage ex_fs [''app'', ''node_modules'', ''a'', ''util.js''] =
   Inr (Some \<lparr>cp_package = \<lparr>pkg_name = Some ''a'', pkg_version = Some ''1.0.0''\<rparr>,
               cp_path = [''app'', ''node_modules'', ''a'']\<rparr>)"
  by (simp add: getClosestPackage.simps findRoot.simps ex_fs_def truthy_def)

lemmas ex_closest = ex_closest_0 ex_closest_1 ex_closest_2 ex_closest_3 ex_closest_4 ex_closest_5

lemma ex_chain_2: "issuer_chain ex_store 2 [2, 1, 0]"
  by (intro chain_step[where b = 1] chain_step[where b = 0] chain_end) (simp_all add: ex_store_def)

lemma ex_chain_packages_2:
  "chain_packages ex_fs ex_store [2, 1, 0] = Inr [''c@1.0.0'', ''b@1.0.0'', ''app@0.1.0'']"
  by (simp add: module_package_def ex_store_def ex_closest name_at_version_def js_string_def)

section \<open>The issuer trace returns on a chain that ends\<close>

lemma push_all_first_occurrences:
  "foldl (\<lambda>r p. push_new p r) ret ps = ret @ filter (\<lambda>p. p \<notin> set ret) (rev (remdups (rev ps)))"
proof (induction ps rule: rev_induct)
  case Nil
  then show ?case by simp
next
  case (snoc p ps)
  then show ?case by (auto simp: push_new_def)
qed

lemma foldl_push_new_Cons:
  "foldl (\<lambda>r p. push_new p r) ret (s # ps) = foldl (\<lambda>r p. push_new p r) (push_new s ret) ps"
  by simp

text \<open>
  Along a chain that ends, the trace pushes the packages of the chain onto the accumulator,
  unless the locator throws for one of them.
\<close>

lemma getIssuer_chain:
  "issuer_chain h a as \<Longrightarrow>
   getIssuer fs h (Some a) ret =
     Some (case chain_packages fs h as of
             Inl e \<Rightarrow> Inl e
           | Inr ps \<Rightarrow> Inr (foldl (\<lambda>r p. push_new p r) ret ps))"
proof (induction arbitrary: ret rule: issuer_chain.induct)
  case (chain_end a)
  show ?case
  proof (cases "resource (h a)")
    case None
    then show ?thesis
      by (subst getIssuer.simps) (simp add: module_package_def)
  next
    case (Some res)
    with chain_end have "issuer (h a) = None" by simp
    with Some show ?thesis
      by (subst getIssuer.simps)
        (simp add: module_package_def visit_def split: sum.splits option.splits)
  qed
next
  case (chain_step a b as)
  from chain_step.hyps(1) obtain res where res: "resource (h a) = Some res" by auto
  have g: "getIssuer fs h (Some a) ret =
           (case visit fs res ret of
              Inl e \<Rightarrow> Some (Inl e)
            | Inr ret' \<Rightarrow> getIssuer fs h (Some b) ret')"
    by (subst getIssuer.simps) (simp add: res chain_step.hyps(2) split: sum.splits)
  show ?case
  proof (cases "getClosestPackage fs res")
    case (Inl e)
    then show ?thesis by (simp add: g visit_def module_package_def res)
  next
    case (Inr r)
    show ?thesis
    proof (cases r)
      case None
      with Inr have "getIssuer fs h (Some a) ret = getIssuer fs h (Some b) ret"
        by (simp add: g visit_def)
      with None Inr show ?thesis
        by (simp add: chain_step.IH module_package_def res split: sum.splits)
    next
      case (Some cp)
      with Inr have "getIssuer fs h (Some a) ret =
          getIssuer fs h (Some b) (push_new (name_at_version (cp_package cp)) ret)"
        by (simp add: g visit_def)
      with Some Inr show ?thesis
        by (simp add: chain_step.IH module_package_def res split: sum.splits)
    qed
  qed
qed

text \<open>
  When the issuer references from a module reach, after the modules \<open>as\<close>, a module without
  resource or without issuer, the trace from that module ends. If the locator throws for
  a module of \<open>as\<close>, the trace throws that exception. Otherwise the list it returns holds the
  \<open>name@version\<close> strings of the packages of \<open>as\<close> in the order of the traversal, each once,
  at its first occurrence; a list that the trace returns is distinct.
\<close>

theorem getIssuer_returns_on_finite_chain:
  assumes "issuer_chain h a as"
  shows "getIssuer fs h (Some a) [] =
           Some (case chain_packages fs h as of
                   Inl e \<Rightarrow> Inl e
                 | Inr ps \<Rightarrow> Inr (rev (remdups (rev ps)))) \<and>
         (\<forall>ps. getIssuer fs h (Some a) [] = Some (Inr ps) \<longrightarrow> distinct ps)"
proof -
  have 1: "getIssuer fs h (Some a) [] =
           Some (case chain_packages fs h as of
                   Inl e \<Rightarrow> Inl e
                 | Inr ps \<Rightarrow> Inr (rev (remdups (rev ps))))"
    using getIssuer_chain[OF assms, of fs "[]"]
    by (simp add: push_all_first_occurrences split: sum.splits)
  then have "\<forall>ps. getIssuer fs h (Some a) [] = Some (Inr ps) \<longrightarrow> distinct ps"
    by (auto split: sum.splits)
  with 1 show ?thesis by blast
qed

theorem getIssuer_returns_witness:
  "issuer_chain ex_store 2 [2, 1, 0] \<and>
   chain_packages ex_fs ex_store [2, 1, 0] = Inr [''c@1.0.0'', ''b@1.0.0'', ''app@0.1.0''] \<and>
   getIssuer ex_fs ex_store (Some 2) [] = Some (Inr [''c@1.0.0'', ''b@1.0.0'', ''app@0.1.0'']) \<and>
   distinct [''c@1.0.0'', ''b@1.0.0'', ''app@0.1.0'']"
proof -
  note t = getIssuer_returns_on_finite_chain[OF ex_chain_2, of ex_fs]
  from t have g: "getIssuer ex_fs ex_store (Some 2) [] =
      Some (Inr [''c@1.0.0'', ''b@1.0.0'', ''app@0.1.0''])"
    unfolding ex_chain_packages_2 by simp
  with t have "distinct [''c@1.0.0'', ''b@1.0.0'', ''app@0.1.0'']" by blast
  with g ex_chain_2 ex_chain_packages_2 show ?thesis by blast
qed

text \<open>
  C10. The claim that the trace returns a list for every chain that ends does not hold of
  the code: the trace calls the locator for every module of the chain, and the locator
  throws for a \<^verbatim>\<open>package.json\<close> that holds \<^verbatim>\<open>null\<close>. In the first example project with \<^verbatim>\<open>null\<close> as
  the \<^verbatim>\<open>package.json\<close> of \<open>b\<close>, the chain from module 2 ends after the modules 2, 1 and 0, and
  the trace from module 2 returns no list: it throws the \<^verbatim>\<open>TypeError\<close> of line 40 when it
  comes to module 1, a file of \<open>b\<close>.
\<close>

theorem getIssuer_throws_on_null_metadata:
  "issuer_chain ex_store 2 [2, 1, 0] \<and>
   resource (ex_store 1) = Some [''app'', ''node_modules'', ''b'', ''index.js''] \<and>
   ex_null_fs [''app'', ''node_modules'', ''b''] = ParsedNull \<and>
   getClosestPackage ex_null_fs [''app'', ''node_modules'', ''b'', ''index.js''] = Inl null_has_no_name \<and>
   getIssuer ex_null_fs ex_store (Some 2) [] = Some (Inl null_has_no_name)"
proof -
  have c: "getClosestPackage ex_null_fs [''app'', ''node_modules'', ''b'', ''index.js''] =
           Inl null_has_no_name"
    by (simp add: getClosestPackage.simps findRoot.simps ex_null_fs_def ex_fs_def)
  have c2: "getClosestPackage ex_null_fs [''app'', ''node_modules'', ''c'', ''lib'', ''index.js''] =
     Inr (Some \<lparr>cp_package = \<lparr>pkg_name = Some ''c'', pkg_version = Some ''1.0.0''\<rparr>,
               cp_path = [''app'', ''node_modules'', ''c'']\<rparr>)"
    by (simp add: getClosestPackage.simps findRoot.simps ex_null_fs_def ex_fs_def truthy_def)
  have "chain_packages ex_null_fs ex_store [2, 1, 0] = Inl null_has_no_name"
    by (simp add: module_package_def ex_store_def c c2)
  with getIssuer_chain[OF ex_chain_2, of ex_null_fs "[]"]
  have g: "getIssuer ex_null_fs ex_store (Some 2) [] = Some (Inl null_has_no_name)" by simp
  have "resource (ex_store 1) = Some [''app'', ''node_modules'', ''b'', ''index.js'']"
    "ex_null_fs [''app'', ''node_modules'', ''b''] = ParsedNull"
    by (simp_all add: ex_store_def ex_null_fs_def)
  with ex_chain_2 c g show ?thesis by blast
qed

section \<open>The rendered issuer path of a three-level chain\<close>

lemma ex_module_packages:
  "module_package ex_fs ex_store 0 = Inr (Some ''app@0.1.0'')"
  "module_package ex_fs ex_store 1 = Inr (Some ''b@1.0.0'')"
  "module_package ex_fs ex_store 2 = Inr (Some ''c@1.0.0'')"
  by (simp_all add: module_package_def ex_store_def ex_closest name_at_version_def js_string_def)

text \<open>
  C1, as amended. Let the module \<open>c\<close> be issued by \<open>b\<close> and \<open>b\<close> by \<open>a\<close>, which has no issuer, and
  let the three modules belong to packages with different \<open>name@version\<close> strings \<open>pc\<close>, \<open>pb\<close>
  and \<open>pa\<close>. The trace starts at \<open>c\<close> itself and yields \<open>[pc, pb, pa]\<close>; the rendering drops the
  last entry, the one of the root-most module \<open>a\<close>, and the path is \<open>~/pb -> pc\<close>.
\<close>

theorem issuerPath_three_level_chain:
  assumes c: "resource (h c) = Some rc" "issuer (h c) = Some b"
    and b: "resource (h b) = Some rb" "issuer (h b) = Some a"
    and a: "resource (h a) = Some ra" "issuer (h a) = None"
    and pkgs: "module_package fs h a = Inr (Some pa)" "module_package fs h b = Inr (Some pb)"
      "module_package fs h c = Inr (Some pc)"
    and dist: "distinct [pa, pb, pc]"
  shows "getIssuer fs h (Some c) [] = Some (Inr [pc, pb, pa]) \<and>
         issuerPath fs h c = Some (Inr (Some (''~/'' @ pb @ '' -> '' @ pc)))"
proof -
  have chain: "issuer_chain h c [c, b, a]"
    using a b c by (intro chain_step[where b = b] chain_step[where b = a] chain_end) simp_all
  have names: "chain_packages fs h [c, b, a] = Inr [pc, pb, pa]"
    using pkgs by simp
  have "getIssuer fs h (Some c) [] = Some (Inr (foldl (\<lambda>r p. push_new p r) [] [pc, pb, pa]))"
    using getIssuer_chain[OF chain, of fs "[]"] names by simp
  with dist have tr: "getIssuer fs h (Some c) [] = Some (Inr [pc, pb, pa])"
    by (auto simp: push_new_def)
  have "issuerResource h c \<noteq> None" using c b by (simp add: issuerResource_def)
  with tr show ?thesis by (simp add: issuerPath_def getIssuerPath_def)
qed

theorem issuerPath_three_level_witness:
  "getIssuer ex_fs ex_store (Some 2) [] = Some (Inr [''c@1.0.0'', ''b@1.0.0'', ''app@0.1.0'']) \<and>
   issuerPath ex_fs ex_store 2 = Some (Inr (Some ''~/b@1.0.0 -> c@1.0.0''))"
proof -
  have "resource (ex_store 2) = Some [''app'', ''node_modules'', ''c'', ''lib'', ''index.js'']"
    "issuer (ex_store 2) = Some 1"
    "resource (ex_store 1) = Some [''app'', ''node_modules'', ''b'', ''index.js'']"
    "issuer (ex_store 1) = Some 0"
    "resource (ex_store 0) = Some [''app'', ''src'', ''index.js'']"
    "issuer (ex_store 0) = None"
    by (simp_all add: ex_store_def)
  from issuerPath_three_level_chain[OF this ex_module_packages] show ?thesis by simp
qed

text \<open>
  The claim as stated fails: for module 2 of the example, issued by module 1 of \<open>b\<close>, itself
  issued by module 0 of \<open>app\<close>, the path is not \<open>~/app@0.1.0 -> b@1.0.0\<close>.
\<close>

theorem issuerPath_drops_root_not_requester:
  "issuer (ex_store 2) = Some 1 \<and> issuer (ex_store 1) = Some 0 \<and>
   module_package ex_fs ex_store 0 = Inr (Some ''app@0.1.0'') \<and>
   module_package ex_fs ex_store 1 = Inr (Some ''b@1.0.0'') \<and>
   module_package ex_fs ex_store 2 = Inr (Some ''c@1.0.0'') \<and>
   issuerPath ex_fs ex_store 2 = Some (Inr (Some ''~/b@1.0.0 -> c@1.0.0'')) \<and>
   issuerPath ex_fs ex_store 2 \<noteq> Some (Inr (Some (''~/'' @ ''app@0.1.0'' @ '' -> '' @ ''b@1.0.0'')))"
proof -
  have "getIssuer ex_fs ex_store (Some 2) [] = Some (Inr [''c@1.0.0'', ''b@1.0.0'', ''app@0.1.0''])"
    using getIssuer_chain[OF ex_chain_2, of ex_fs "[]"] unfolding ex_chain_packages_2
    by (simp add: push_new_def)
  then have ip: "issuerPath ex_fs ex_store 2 = Some (Inr (Some ''~/b@1.0.0 -> c@1.0.0''))"
    by (simp add: issuerPath_def issuerResource_def ex_store_def getIssuerPath_def)
  then have ne: "issuerPath ex_fs ex_store 2 \<noteq> Some (Inr (Some (''~/'' @ ''app@0.1.0'' @ '' -> '' @ ''b@1.0.0'')))"
    by simp
  have st: "issuer (ex_store 2) = Some 1" "issuer (ex_store 1) = Some 0"
    by (simp_all add: ex_store_def)
  from ip ne st ex_module_packages show ?thesis by blast
qed

section \<open>The package locator finds the nearest named package\<close>

lemma ancestors_Nil: "ancestors [] = []"
  by (simp add: ancestors_def)

lemma ancestors_step: "p \<noteq> [] \<Longrightarrow> ancestors p = p # ancestors (butlast p)"
proof -
  assume "p \<noteq> []"
  then obtain n where n: "length p = Suc n" by (cases p) auto
  have "map (\<lambda>k. take k p) (rev [1..<Suc n]) = map (\<lambda>k. take k (butlast p)) (rev [1..<Suc n])"
    using n by (intro map_cong) (auto simp: take_butlast butlast_conv_take)
  then show ?thesis using n by (simp add: ancestors_def)
qed

lemma findRoot_None: "findRoot fs p = None \<Longrightarrow> dropWhile (\<lambda>d. fs d = NoFile) (ancestors p) = []"
proof (induction fs p rule: findRoot.induct)
  case (1 fs start)
  show ?case
  proof (cases "start = []")
    case True
    then show ?thesis by (simp add: ancestors_Nil)
  next
    case False
    with "1.prems" have nf: "fs start = NoFile" and r: "findRoot fs (butlast start) = None"
      by (auto simp: findRoot.simps[of fs start] split: if_splits)
    with "1.IH" False show ?thesis by (simp add: ancestors_step)
  qed
qed

lemma findRoot_Some:
  "findRoot fs p = Some root \<Longrightarrow>
   dropWhile (\<lambda>d. fs d = NoFile) (ancestors p) = root # ancestors (butlast root) \<and> fs root \<noteq> NoFile"
proof (induction fs p rule: findRoot.induct)
  case (1 fs start)
  from "1.prems" have ne: "start \<noteq> []" by (auto simp: findRoot.simps[of fs start] split: if_splits)
  show ?case
  proof (cases "fs start = NoFile")
    case True
    with "1.prems" ne have "findRoot fs (butlast start) = Some root"
      by (auto simp: findRoot.simps[of fs start] split: if_splits)
    with "1.IH" ne True show ?thesis by (simp add: ancestors_step)
  next
    case False
    with "1.prems" ne have "root = start" by (auto simp: findRoot.simps[of fs start])
    with False ne show ?thesis by (simp add: ancestors_step)
  qed
qed

lemma dropWhile_weaker:
  "(\<And>x. P x \<Longrightarrow> Q x) \<Longrightarrow> dropWhile Q (dropWhile P xs) = dropWhile Q xs"
  by (induction xs) auto

lemma skipped_ancestors:
  "dropWhile (\<lambda>d. fs d = NoFile \<or> anonymous fs d) (ancestors p) =
   dropWhile (\<lambda>d. fs d = NoFile \<or> anonymous fs d) (dropWhile (\<lambda>d. fs d = NoFile) (ancestors p))"
  by (rule dropWhile_weaker[symmetric]) simp

lemma decisive_None:
  assumes "findRoot fs p = None"
  shows "decisive fs p = None"
proof -
  have "dropWhile (\<lambda>d. fs d = NoFile \<or> anonymous fs d) (ancestors p) =
        dropWhile (\<lambda>d. fs d = NoFile \<or> anonymous fs d) []"
    by (subst skipped_ancestors) (simp only: findRoot_None[OF assms])
  then have "dropWhile (\<lambda>d. fs d = NoFile \<or> anonymous fs d) (ancestors p) = []"
    by (simp only: dropWhile.simps)
  then show ?thesis by (simp only: decisive_def list.case)
qed

lemma decisive_Some:
  assumes "findRoot fs p = Some root"
  shows "decisive fs p = (if anonymous fs root then decisive fs (butlast root) else Some root)"
proof -
  note fr = findRoot_Some[OF assms]
  have "dropWhile (\<lambda>d. fs d = NoFile \<or> anonymous fs d) (ancestors p) =
        dropWhile (\<lambda>d. fs d = NoFile \<or> anonymous fs d) (root # ancestors (butlast root))"
    by (subst skipped_ancestors) (simp only: fr[THEN conjunct1])
  with fr show ?thesis by (simp add: decisive_def)
qed

lemma anonymous_truthy:
  "fs root = Parsed pkg \<Longrightarrow> anonymous fs root \<longleftrightarrow> \<not> truthy (pkg_name pkg)"
  by (simp add: anonymous_def truthy_def split: option.splits)

lemma getClosestPackage_nearest:
  "getClosestPackage fs p =
     (if null_decides fs p then Inl null_has_no_name else Inr (nearest_named fs p))"
proof (induction fs p rule: getClosestPackage.induct)
  case (1 fs modulePath)
  show ?case
  proof (cases "findRoot fs modulePath")
    case None
    then show ?thesis
      by (simp add: getClosestPackage.simps[of fs modulePath] nearest_named_def null_decides_def
          decisive_None)
  next
    case (Some root)
    note dc = decisive_Some[OF Some]
    show ?thesis
    proof (cases "fs root")
      case NoFile
      with findRoot_Some[OF Some] show ?thesis by simp
    next
      case Unparsable
      then have "\<not> anonymous fs root" by (simp add: anonymous_def)
      with Unparsable show ?thesis using Some
        by (simp add: getClosestPackage.simps[of fs modulePath] nearest_named_def null_decides_def dc)
    next
      case ParsedNull
      then have "\<not> anonymous fs root" by (simp add: anonymous_def)
      with ParsedNull show ?thesis using Some
        by (simp add: getClosestPackage.simps[of fs modulePath] nearest_named_def null_decides_def dc)
    next
      case (Parsed pkg)
      show ?thesis
      proof (cases "truthy (pkg_name pkg)")
        case True
        with Parsed have "\<not> anonymous fs root" by (simp add: anonymous_truthy)
        with True Parsed show ?thesis using Some
          by (simp add: getClosestPackage.simps[of fs modulePath] nearest_named_def null_decides_def dc)
      next
        case False
        with "1.IH"[OF Some Parsed]
        have "getClosestPackage fs (butlast root) =
              (if null_decides fs (butlast root) then Inl null_has_no_name
               else Inr (nearest_named fs (butlast root)))"
          by simp
        moreover from False Parsed have "anonymous fs root" by (simp add: anonymous_truthy)
        ultimately show ?thesis using False Parsed Some
          by (simp add: getClosestPackage.simps[of fs modulePath] nearest_named_def null_decides_def dc)
      qed
    qed
  qed
qed

lemma decisive_not_skipped:
  "decisive fs p = Some d \<Longrightarrow> fs d \<noteq> NoFile \<and> \<not> anonymous fs d"
proof -
  assume a: "decisive fs p = Some d"
  then obtain ds where "dropWhile (\<lambda>d. fs d = NoFile \<or> anonymous fs d) (ancestors p) = d # ds"
    by (auto simp: decisive_def split: list.splits)
  then have "\<not> (fs d = NoFile \<or> anonymous fs d)"
    by (rule dropWhile_eq_Cons_conv[THEN iffD1, THEN conjunct2])
  then show ?thesis by simp
qed

lemma nearest_named_has_name:
  assumes "nearest_named fs p = Some cp"
  shows "fs (cp_path cp) = Parsed (cp_package cp) \<and>
         (\<exists>s. pkg_name (cp_package cp) = Some s \<and> s \<noteq> [])"
proof -
  from assms obtain d pkg where d: "decisive fs p = Some d" and p: "fs d = Parsed pkg"
    and cp: "cp = \<lparr>cp_package = pkg, cp_path = d\<rparr>"
    by (auto simp: nearest_named_def split: option.splits metadata.splits)
  from decisive_not_skipped[OF d] p have "\<exists>s. pkg_name pkg = Some s \<and> s \<noteq> []"
    by (auto simp: anonymous_def split: option.splits)
  with p cp show ?thesis by simp
qed

text \<open>
  The locator walks from the path upwards and passes over the directories without
  metadata and those whose metadata is an object without a name or with the empty name.
  When the walk ends at metadata that is \<^verbatim>\<open>null\<close>, the locator throws a \<^verbatim>\<open>TypeError\<close>. Otherwise
  it computes what the specification words: the identity of the nearest directory whose
  metadata is an object with a non-empty name, and none when the walk passes over every
  directory or ends at metadata that cannot be parsed. When the nearest metadata is
  anonymous, the result is that of the search from one directory above the found root. A
  package that the locator returns has a non-empty name.
\<close>

theorem getClosestPackage_retries_to_nearest_named:
  "getClosestPackage fs p =
     (if null_decides fs p then Inl null_has_no_name else Inr (nearest_named fs p)) \<and>
   (\<forall>root. findRoot fs p = Some root \<and> anonymous fs root \<longrightarrow>
      getClosestPackage fs p = getClosestPackage fs (butlast root)) \<and>
   (findRoot fs p = None \<longrightarrow> getClosestPackage fs p = Inr None) \<and>
   (\<forall>root. findRoot fs p = Some root \<and> fs root = Unparsable \<longrightarrow> getClosestPackage fs p = Inr None) \<and>
   (\<forall>root. findRoot fs p = Some root \<and> fs root = ParsedNull \<longrightarrow>
      getClosestPackage fs p = Inl null_has_no_name) \<and>
   (\<forall>cp. getClosestPackage fs p = Inr (Some cp) \<longrightarrow>
      fs (cp_path cp) = Parsed (cp_package cp) \<and>
      (\<exists>s. pkg_name (cp_package cp) = Some s \<and> s \<noteq> []))"
proof -
  have 1: "getClosestPackage fs p =
     (if null_decides fs p then Inl null_has_no_name else Inr (nearest_named fs p))"
    by (rule getClosestPackage_nearest)
  have 2: "getClosestPackage fs p = getClosestPackage fs (butlast root)"
    if a: "findRoot fs p = Some root \<and> anonymous fs root" for root
  proof -
    from a obtain pkg where pk: "fs root = Parsed pkg"
      by (auto simp: anonymous_def split: metadata.splits)
    with a anonymous_truthy[of fs root pkg] show ?thesis
      by (simp add: getClosestPackage.simps[of fs p])
  qed
  have 3: "getClosestPackage fs p = Inr None" if "findRoot fs p = None"
    using that by (simp add: getClosestPackage.simps[of fs p])
  have 4: "getClosestPackage fs p = Inr None"
    if "findRoot fs p = Some root \<and> fs root = Unparsable" for root
    using that by (simp add: getClosestPackage.simps[of fs p])
  have 5: "getClosestPackage fs p = Inl null_has_no_name"
    if "findRoot fs p = Some root \<and> fs root = ParsedNull" for root
    using that by (simp add: getClosestPackage.simps[of fs p])
  have 6: "fs (cp_path cp) = Parsed (cp_package cp) \<and>
      (\<exists>s. pkg_name (cp_package cp) = Some s \<and> s \<noteq> [])"
    if "getClosestPackage fs p = Inr (Some cp)" for cp
  proof -
    from that have "nearest_named fs p = Some cp"
      unfolding getClosestPackage_nearest[of fs p] by (simp split: if_splits)
    then show ?thesis by (rule nearest_named_has_name)
  qed
  from 1 2 3 4 5 6 show ?thesis by blast
qed

text \<open>
  In the example project: from \<^verbatim>\<open>lib/util\<close> of \<open>c\<close> the walk passes over the metadata with the
  empty name and the metadata without name and ends at \<open>c\<close>; a path outside the project and
  a path below the metadata that cannot be parsed give none.
\<close>

theorem getClosestPackage_retry_witness:
  "findRoot ex_fs [''app'', ''node_modules'', ''c'', ''lib'', ''util'', ''index.js''] =
     Some [''app'', ''node_modules'', ''c'', ''lib'', ''util''] \<and>
   ex_fs [''app'', ''node_modules'', ''c'', ''lib'', ''util''] =
     Parsed \<lparr>pkg_name = Some [], pkg_version = None\<rparr> \<and>
   anonymous ex_fs [''app'', ''node_modules'', ''c'', ''lib'', ''util''] \<and>
   getClosestPackage ex_fs [''app'', ''node_modules'', ''c'', ''lib'', ''util'', ''index.js''] =
     getClosestPackage ex_fs [''app'', ''node_modules'', ''c'', ''lib''] \<and>
   findRoot ex_fs [''app'', ''node_modules'', ''c'', ''lib''] = Some [''app'', ''node_modules'', ''c'', ''lib''] \<and>
   ex_fs [''app'', ''node_modules'', ''c'', ''lib''] =
     Parsed \<lparr>pkg_name = None, pkg_version = Some ''1.0.0''\<rparr> \<and>
   anonymous ex_fs [''app'', ''node_modules'', ''c'', ''lib''] \<and>
   getClosestPackage ex_fs [''app'', ''node_modules'', ''c'', ''lib''] =
     getClosestPackage ex_fs [''app'', ''node_modules'', ''c''] \<and>
   \<not> null_decides ex_fs [''app'', ''node_modules'', ''c'', ''lib'', ''util'', ''index.js''] \<and>
   nearest_named ex_fs [''app'', ''node_modules'', ''c'', ''lib'', ''util'', ''index.js''] =
     Some \<lparr>cp_package = \<lparr>pkg_name = Some ''c'', pkg_version = Some ''1.0.0''\<rparr>,
            cp_path = [''app'', ''node_modules'', ''c'']\<rparr> \<and>
   getClosestPackage ex_fs [''app'', ''node_modules'', ''c'', ''lib'', ''util'', ''index.js''] =
     Inr (Some \<lparr>cp_package = \<lparr>pkg_name = Some ''c'', pkg_version = Some ''1.0.0''\<rparr>,
               cp_path = [''app'', ''node_modules'', ''c'']\<rparr>) \<and>
   findRoot ex_fs [''elsewhere'', ''index.js''] = None \<and>
   getClosestPackage ex_fs [''elsewhere'', ''index.js''] = Inr None \<and>
   findRoot ex_fs [''app'', ''node_modules'', ''d'', ''index.js''] = Some [''app'', ''node_modules'', ''d''] \<and>
   ex_fs [''app'', ''node_modules'', ''d''] = Unparsable \<and>
   getClosestPackage ex_fs [''app'', ''node_modules'', ''d'', ''index.js''] = Inr None \<and>
   findRoot ex_null_fs [''app'', ''node_modules'', ''b'', ''index.js''] = Some [''app'', ''node_modules'', ''b''] \<and>
   ex_null_fs [''app'', ''node_modules'', ''b''] = ParsedNull \<and>
   getClosestPackage ex_null_fs [''app'', ''node_modules'', ''b'', ''index.js''] = Inl null_has_no_name"
proof -
  let ?u = "[''app'', ''node_modules'', ''c'', ''lib'', ''util'', ''index.js'']"
  let ?l = "[''app'', ''node_modules'', ''c'', ''lib'']"
  have fu: "findRoot ex_fs ?u = Some [''app'', ''node_modules'', ''c'', ''lib'', ''util'']"
    by (simp add: findRoot.simps ex_fs_def)
  have mu: "ex_fs [''app'', ''node_modules'', ''c'', ''lib'', ''util''] =
     Parsed \<lparr>pkg_name = Some [], pkg_version = None\<rparr>"
    by (simp add: ex_fs_def)
  have au: "anonymous ex_fs [''app'', ''node_modules'', ''c'', ''lib'', ''util'']"
    by (simp add: anonymous_def ex_fs_def)
  have fl: "findRoot ex_fs ?l = Some ?l"
    by (simp add: findRoot.simps ex_fs_def)
  have ml: "ex_fs ?l = Parsed \<lparr>pkg_name = None, pkg_version = Some ''1.0.0''\<rparr>"
    by (simp add: ex_fs_def)
  have al: "anonymous ex_fs ?l"
    by (simp add: anonymous_def ex_fs_def)
  have n: "findRoot ex_fs [''elsewhere'', ''index.js''] = None"
    by (simp add: findRoot.simps ex_fs_def)
  have u: "findRoot ex_fs [''app'', ''node_modules'', ''d'', ''index.js''] = Some [''app'', ''node_modules'', ''d'']"
    "ex_fs [''app'', ''node_modules'', ''d''] = Unparsable"
    by (simp_all add: findRoot.simps ex_fs_def)
  have z: "findRoot ex_null_fs [''app'', ''node_modules'', ''b'', ''index.js''] = Some [''app'', ''node_modules'', ''b'']"
    "ex_null_fs [''app'', ''node_modules'', ''b''] = ParsedNull"
    by (simp_all add: findRoot.simps ex_null_fs_def ex_fs_def)
  have c: "getClosestPackage ex_fs [''app'', ''node_modules'', ''c''] =
     Inr (Some \<lparr>cp_package = \<lparr>pkg_name = Some ''c'', pkg_version = Some ''1.0.0''\<rparr>,
               cp_path = [''app'', ''node_modules'', ''c'']\<rparr>)"
    by (simp add: getClosestPackage.simps findRoot.simps ex_fs_def truthy_def)
  note tu = getClosestPackage_retries_to_nearest_named[of ex_fs ?u]
  note tl = getClosestPackage_retries_to_nearest_named[of ex_fs ?l]
  note t1 = getClosestPackage_retries_to_nearest_named[of ex_fs "[''elsewhere'', ''index.js'']"]
  note t2 = getClosestPackage_retries_to_nearest_named[of ex_fs "[''app'', ''node_modules'', ''d'', ''index.js'']"]
  note t3 = getClosestPackage_retries_to_nearest_named[of ex_null_fs "[''app'', ''node_modules'', ''b'', ''index.js'']"]
  from tu fu au have 1: "getClosestPackage ex_fs ?u =
     getClosestPackage ex_fs (butlast [''app'', ''node_modules'', ''c'', ''lib'', ''util''])" by blast
  from tl fl al have 2: "getClosestPackage ex_fs ?l = getClosestPackage ex_fs (butlast ?l)" by blast
  from 1 2 c have 3: "getClosestPackage ex_fs ?u =
     Inr (Some \<lparr>cp_package = \<lparr>pkg_name = Some ''c'', pkg_version = Some ''1.0.0''\<rparr>,
               cp_path = [''app'', ''node_modules'', ''c'']\<rparr>)" by simp
  from tu have "getClosestPackage ex_fs ?u =
     (if null_decides ex_fs ?u then Inl null_has_no_name else Inr (nearest_named ex_fs ?u))" by blast
  with 3 have 4: "\<not> null_decides ex_fs ?u" "nearest_named ex_fs ?u =
     Some \<lparr>cp_package = \<lparr>pkg_name = Some ''c'', pkg_version = Some ''1.0.0''\<rparr>,
            cp_path = [''app'', ''node_modules'', ''c'']\<rparr>"
    by (simp_all split: if_splits)
  from t1 n have 5: "getClosestPackage ex_fs [''elsewhere'', ''index.js''] = Inr None" by blast
  from t2 u have 6: "getClosestPackage ex_fs [''app'', ''node_modules'', ''d'', ''index.js''] = Inr None"
    by blast
  from t3 z have 7: "getClosestPackage ex_null_fs [''app'', ''node_modules'', ''b'', ''index.js''] =
     Inl null_has_no_name" by blast
  from 1 have r1: "getClosestPackage ex_fs ?u = getClosestPackage ex_fs ?l" by simp
  from 2 have r2: "getClosestPackage ex_fs ?l = getClosestPackage ex_fs [''app'', ''node_modules'', ''c'']"
    by simp
  show ?thesis using fu mu au r1 fl ml al r2 4 3 n 5 u 6 z 7 by blast
qed

text \<open>
  C7. The claim that the locator retries above metadata without a name and returns none
  rather than failing does not hold of the code for metadata that is \<^verbatim>\<open>null\<close>. The \<^verbatim>\<open>try\<close> of
  lines 29 to 34 catches the errors of \<^verbatim>\<open>findRoot\<close> and \<^verbatim>\<open>require\<close>, and line 40 means to retry
  when the \<^verbatim>\<open>package.json\<close> has no name; but for a \<^verbatim>\<open>package.json\<close> that holds \<^verbatim>\<open>null\<close> line 40
  reads a property of \<^verbatim>\<open>null\<close> outside the \<^verbatim>\<open>try\<close>. In the example the metadata of \<open>b\<close> is \<^verbatim>\<open>null\<close>
  and the project above it has a name, yet the locator neither retries one directory
  above nor returns none; it throws.
\<close>

theorem getClosestPackage_throws_on_null:
  "findRoot ex_null_fs [''app'', ''node_modules'', ''b'', ''index.js''] = Some [''app'', ''node_modules'', ''b''] \<and>
   ex_null_fs [''app'', ''node_modules'', ''b''] = ParsedNull \<and>
   getClosestPackage ex_null_fs [''app'', ''node_modules''] =
     Inr (Some \<lparr>cp_package = \<lparr>pkg_name = Some ''app'', pkg_version = Some ''0.1.0''\<rparr>,
               cp_path = [''app'']\<rparr>) \<and>
   getClosestPackage ex_null_fs [''app'', ''node_modules'', ''b'', ''index.js''] = Inl null_has_no_name \<and>
   getClosestPackage ex_null_fs [''app'', ''node_modules'', ''b'', ''index.js''] \<noteq>
     getClosestPackage ex_null_fs [''app'', ''node_modules''] \<and>
   getClosestPackage ex_null_fs [''app'', ''node_modules'', ''b'', ''index.js''] \<noteq> Inr None"
  by (simp add: getClosestPackage.simps findRoot.simps ex_null_fs_def ex_fs_def truthy_def)

section \<open>The aggregation keeps its invariants\<close>

lemma processModule_eq:
  "processModule fs h cx M a =
     (case resource (h a) of
        None \<Rightarrow> Some (Inr M)
      | Some res \<Rightarrow>
          (case getClosestPackage fs res of
             Inl e \<Rightarrow> Some (Inl e)
           | Inr None \<Rightarrow> Some (Inr M)
           | Inr (Some cp) \<Rightarrow>
               (case issuerPath fs h a of
                  None \<Rightarrow> None
                | Some (Inl e) \<Rightarrow> Some (Inl e)
                | Some (Inr ipath) \<Rightarrow>
                    if js_string (pkg_name (cp_package cp)) \<in> set object_prototype_keys
                    then Some (Inl push_is_not_a_function)
                    else
                      Some (Inr (AList.update (js_string (pkg_name (cp_package cp)))
                        (entries_after (pkg_version (cp_package cp))
                           \<lparr>version = pkg_version (cp_package cp),
                             path = cleanPathRelativeToContext cx (path_string (cp_path cp)),
                             issuerPaths = [],
                             entry_issuer = map_option (\<lambda>r. cleanPathRelativeToContext cx (path_string r))
                                              (issuerResource h a)\<rparr>
                           ipath
                           (lookup_entries M (js_string (pkg_name (cp_package cp)))))
                        M)))))"
  by (simp add: processModule_def entries_after_def found_or_pushed_def lookup_entries_def Let_def
      split: option.splits sum.splits)

lemma map_version_add_issuerPath: "map version (add_issuerPath v ip es) = map version es"
  by (induction es) auto

lemma add_issuerPath_Nil_iff: "add_issuerPath v ip es = [] \<longleftrightarrow> es = []"
  by (cases es) auto

lemma distinct_paths_add_issuerPath:
  "list_all (\<lambda>e. distinct (issuerPaths e)) es \<Longrightarrow>
   list_all (\<lambda>e. distinct (issuerPaths e)) (add_issuerPath v ip es)"
  by (induction es) auto

lemma grows_refl: "grows e e"
  by (simp add: grows_def)

lemma grows_trans: "grows e1 e2 \<Longrightarrow> grows e2 e3 \<Longrightarrow> grows e1 e3"
  unfolding grows_def
  by (metis length_take min.cobounded2 min.absorb_iff2 take_take min.commute)

lemma list_all2_grows_refl: "list_all2 grows es es"
  by (simp add: list_all2_refl grows_refl)

lemma grows_push: "grows e (e\<lparr>issuerPaths := issuerPaths e @ [ip]\<rparr>)"
  by (simp add: grows_def)

lemma grows_add_issuerPath: "list_all2 grows es (add_issuerPath v ip es)"
  by (induction es) (auto simp: list_all2_grows_refl grows_refl grows_push)

lemma find_Some_set: "find P xs = Some x \<Longrightarrow> x \<in> set xs \<and> P x"
  by (induction xs) (auto split: if_splits)

lemma in_add_issuerPath:
  "\<exists>e\<in>set es. version e = v \<Longrightarrow>
   \<exists>e\<in>set (add_issuerPath v ip es). version e = v \<and> ip \<in> set (issuerPaths e)"
  by (induction es) auto

lemma found_or_pushed_ok:
  "entries_ok es \<Longrightarrow> version new = v \<Longrightarrow> issuerPaths new = [] \<Longrightarrow>
   entries_ok (found_or_pushed v new es)"
  by (auto simp: found_or_pushed_def entries_ok_def find_None_iff split: option.splits)

lemma found_or_pushed_has:
  "version new = v \<Longrightarrow> \<exists>e\<in>set (found_or_pushed v new es). version e = v"
  by (auto simp: found_or_pushed_def dest!: find_Some_set split: option.splits)

lemma found_or_pushed_take: "take (length es) (found_or_pushed v new es) = es"
  by (auto simp: found_or_pushed_def split: option.splits)

lemma entries_after_ok:
  assumes "entries_ok es" "version new = v" "issuerPaths new = []"
  shows "entries_ok (entries_after v new ipath es)"
  using found_or_pushed_ok[OF assms]
  by (auto simp: entries_after_def entries_ok_def map_version_add_issuerPath
      distinct_paths_add_issuerPath split: option.splits)

lemma entries_after_nonempty: "entries_after v new ipath es \<noteq> []"
  using found_or_pushed_has[of new "version new" es]
  by (cases "found_or_pushed (version new) new es")
    (auto simp: entries_after_def add_issuerPath_Nil_iff found_or_pushed_def split: option.splits)

lemma entries_after_grow: "entries_grow es (entries_after v new ipath es)"
proof -
  define es1 where "es1 = found_or_pushed v new es"
  define es2 where "es2 = entries_after v new ipath es"
  have 1: "take (length es) es1 = es" by (simp add: es1_def found_or_pushed_take)
  have 2: "list_all2 grows es1 es2"
    by (auto simp: es2_def es1_def entries_after_def list_all2_grows_refl grows_add_issuerPath
        split: option.splits)
  then have "list_all2 grows (take (length es) es1) (take (length es) es2)"
    by (rule list_all2_takeI)
  with 1 show ?thesis by (simp add: entries_grow_def es2_def)
qed

lemma entries_after_has:
  assumes "version new = v"
  shows "\<exists>e\<in>set (entries_after v new ipath es). version e = v \<and>
           (case ipath of Some ip \<Rightarrow> ip \<in> set (issuerPaths e) | None \<Rightarrow> True)"
proof (cases ipath)
  case None
  with found_or_pushed_has[OF assms, of es] show ?thesis by (simp add: entries_after_def)
next
  case (Some ip)
  with in_add_issuerPath[OF found_or_pushed_has[OF assms, of es], of ip] show ?thesis
    by (simp add: entries_after_def)
qed

lemma list_all_map_of:
  "distinct (map fst M) \<Longrightarrow>
   list_all (\<lambda>(n, es). Q n es) M \<longleftrightarrow> (\<forall>n es. map_of M n = Some es \<longrightarrow> Q n es)"
  by (auto simp: list_all_iff)

lemma modules_ok_iff:
  "modules_ok M \<longleftrightarrow>
   distinct (map fst M) \<and> (\<forall>n es. map_of M n = Some es \<longrightarrow> es \<noteq> [] \<and> entries_ok es)"
  unfolding modules_ok_def using list_all_map_of[of M "\<lambda>n es. es \<noteq> [] \<and> entries_ok es"] by blast

lemma case_option_False_iff:
  "(case x of None \<Rightarrow> False | Some y \<Rightarrow> P y) \<longleftrightarrow> (\<exists>y. x = Some y \<and> P y)"
  by (cases x) auto

lemma modules_grow_iff:
  assumes "distinct (map fst M)"
  shows "modules_grow M M' \<longleftrightarrow>
   (\<forall>n es. map_of M n = Some es \<longrightarrow> (\<exists>es'. map_of M' n = Some es' \<and> entries_grow es es'))"
proof -
  have "modules_grow M M' \<longleftrightarrow>
    (\<forall>n es. (n, es) \<in> set M \<longrightarrow> (case map_of M' n of None \<Rightarrow> False | Some es' \<Rightarrow> entries_grow es es'))"
    by (auto simp: modules_grow_def list_all_iff)
  also have "\<dots> \<longleftrightarrow> (\<forall>n es. (n, es) \<in> set M \<longrightarrow> (\<exists>es'. map_of M' n = Some es' \<and> entries_grow es es'))"
    by (simp only: case_option_False_iff)
  finally show ?thesis using assms by simp
qed

lemma entries_grow_refl: "entries_grow es es"
  by (simp add: entries_grow_def list_all2_grows_refl)

lemma entries_grow_trans:
  assumes "entries_grow es1 es2" "entries_grow es2 es3"
  shows "entries_grow es1 es3"
proof -
  from assms(1) have le: "length es1 \<le> length es2"
    unfolding entries_grow_def by (auto dest!: list_all2_lengthD)
  from assms(2) have "list_all2 grows (take (length es1) es2) (take (length es1) (take (length es2) es3))"
    unfolding entries_grow_def by (rule list_all2_takeI)
  with le have "list_all2 grows (take (length es1) es2) (take (length es1) es3)"
    by (simp add: min_absorb1)
  with assms(1) show ?thesis
    unfolding entries_grow_def
    by (rule list_all2_trans[rotated 1]) (rule grows_trans)
qed

lemma modules_grow_refl: "distinct (map fst M) \<Longrightarrow> modules_grow M M"
  by (simp add: modules_grow_iff entries_grow_refl)

lemma modules_grow_trans:
  assumes "distinct (map fst M1)" "distinct (map fst M2)" "modules_grow M1 M2" "modules_grow M2 M3"
  shows "modules_grow M1 M3"
  using assms by (simp add: modules_grow_iff) (blast intro: entries_grow_trans)

lemma update_step_ok:
  fixes n :: string and ipath :: "string option"
  assumes ok: "modules_ok M" and new: "version new = v" "issuerPaths new = []"
  defines "M' \<equiv> AList.update n (entries_after v new ipath (lookup_entries M n)) M"
  shows "modules_ok M'" and "modules_grow M M'"
proof -
  from ok have d: "distinct (map fst M)" by (simp add: modules_ok_iff)
  have lk: "entries_ok (lookup_entries M n)"
    using ok by (auto simp: modules_ok_iff lookup_entries_def entries_ok_def split: option.splits)
  show "modules_ok M'"
    using ok entries_after_ok[OF lk new, of ipath] entries_after_nonempty[of v new ipath "lookup_entries M n"]
    by (auto simp: modules_ok_iff M'_def distinct_update update_conv')
  show "modules_grow M M'"
    using d entries_after_grow[of "lookup_entries M n" v new ipath]
    by (auto simp: modules_grow_iff M'_def update_conv' entries_grow_refl lookup_entries_def)
qed

lemma entries_grow_member:
  assumes "entries_grow es es'" "e \<in> set es"
  shows "\<exists>e'\<in>set es'. grows e e'"
proof -
  from assms(2) obtain i where i: "i < length es" "es ! i = e" by (auto simp: in_set_conv_nth)
  from assms(1) have l: "list_all2 grows es (take (length es) es')" by (simp add: entries_grow_def)
  from list_all2_nthD[OF l i(1)] i have g: "grows e (take (length es) es' ! i)" by simp
  from l have "length es = length (take (length es) es')" by (rule list_all2_lengthD)
  with i have "take (length es) es' ! i \<in> set (take (length es) es')" by (metis nth_mem)
  then have "take (length es) es' ! i \<in> set es'" by (rule in_set_takeD)
  with g show ?thesis by blast
qed

lemma grows_issuerPath: "grows e e' \<Longrightarrow> ip \<in> set (issuerPaths e) \<Longrightarrow> ip \<in> set (issuerPaths e')"
  unfolding grows_def by (metis in_set_takeD)

lemma case_option_option_iff:
  "(case x of None \<Rightarrow> True | Some (Inl e) \<Rightarrow> True | Some (Inr None) \<Rightarrow> True
    | Some (Inr (Some ip)) \<Rightarrow> P ip) \<longleftrightarrow>
   (\<forall>ip. x = Some (Inr (Some ip)) \<longrightarrow> P ip)"
  by (auto split: option.splits sum.splits)

lemma contributed_iff:
  "contributed fs h M a \<longleftrightarrow>
   (\<forall>res cp. resource (h a) = Some res \<and> getClosestPackage fs res = Inr (Some cp) \<longrightarrow>
      (\<exists>es e. map_of M (js_string (pkg_name (cp_package cp))) = Some es \<and> e \<in> set es \<and>
         version e = pkg_version (cp_package cp) \<and>
         (\<forall>ip. issuerPath fs h a = Some (Inr (Some ip)) \<longrightarrow> ip \<in> set (issuerPaths e))))"
  unfolding contributed_def list_ex_iff case_option_option_iff
  by (auto split: option.splits sum.splits)

lemma contributed_grow:
  assumes c: "contributed fs h M a" and d: "distinct (map fst M)" and g: "modules_grow M M'"
  shows "contributed fs h M' a"
  unfolding contributed_iff
proof (intro allI impI)
  fix res cp
  assume r: "resource (h a) = Some res \<and> getClosestPackage fs res = Inr (Some cp)"
  with c obtain es e where e: "map_of M (js_string (pkg_name (cp_package cp))) = Some es" "e \<in> set es"
    "version e = pkg_version (cp_package cp)"
    "\<forall>ip. issuerPath fs h a = Some (Inr (Some ip)) \<longrightarrow> ip \<in> set (issuerPaths e)"
    unfolding contributed_iff by blast
  from g d e(1) obtain es' where es': "map_of M' (js_string (pkg_name (cp_package cp))) = Some es'"
    "entries_grow es es'"
    by (auto simp: modules_grow_iff)
  from entries_grow_member[OF es'(2) e(2)] obtain e' where e': "e' \<in> set es'" "grows e e'" by blast
  from e' e(3) have "version e' = pkg_version (cp_package cp)" by (simp add: grows_def)
  moreover from e' e(4) have "\<forall>ip. issuerPath fs h a = Some (Inr (Some ip)) \<longrightarrow> ip \<in> set (issuerPaths e')"
    using grows_issuerPath by blast
  ultimately show "\<exists>es e. map_of M' (js_string (pkg_name (cp_package cp))) = Some es \<and> e \<in> set es \<and>
         version e = pkg_version (cp_package cp) \<and>
         (\<forall>ip. issuerPath fs h a = Some (Inr (Some ip)) \<longrightarrow> ip \<in> set (issuerPaths e))"
    using es'(1) e'(1) by blast
qed

lemma processModule_step:
  assumes p: "processModule fs h cx M a = Some (Inr M')" and ok: "modules_ok M"
  shows "modules_ok M' \<and> modules_grow M M' \<and> contributed fs h M' a"
proof (cases "\<exists>res cp. resource (h a) = Some res \<and> getClosestPackage fs res = Inr (Some cp)")
  case False
  with p have "M' = M" by (auto simp: processModule_eq split: option.splits sum.splits)
  moreover from False have "contributed fs h M a" by (auto simp: contributed_iff)
  moreover from ok have "distinct (map fst M)" by (simp add: modules_ok_iff)
  ultimately show ?thesis using ok by (simp add: modules_grow_refl)
next
  case True
  then obtain res cp where r: "resource (h a) = Some res" "getClosestPackage fs res = Inr (Some cp)" by blast
  define n where "n = js_string (pkg_name (cp_package cp))"
  define v where "v = pkg_version (cp_package cp)"
  define new where "new = \<lparr>version = v,
                           path = cleanPathRelativeToContext cx (path_string (cp_path cp)),
                           issuerPaths = [],
                           entry_issuer = map_option (\<lambda>r. cleanPathRelativeToContext cx (path_string r))
                                            (issuerResource h a)\<rparr>"
  from p r obtain ipath where ip: "issuerPath fs h a = Some (Inr ipath)"
    and M': "M' = AList.update n (entries_after v new ipath (lookup_entries M n)) M"
    by (auto simp: processModule_eq n_def v_def new_def split: option.splits sum.splits if_splits)
  have nw: "version new = v" "issuerPaths new = []" by (simp_all add: new_def)
  note st = update_step_ok[OF ok nw, of n ipath]
  from entries_after_has[OF nw(1), of ipath "lookup_entries M n"]
  obtain e where e: "e \<in> set (entries_after v new ipath (lookup_entries M n))" "version e = v"
    "case ipath of Some ip \<Rightarrow> ip \<in> set (issuerPaths e) | None \<Rightarrow> True" by blast
  have "contributed fs h M' a"
    unfolding contributed_iff using r ip e
    by (auto simp: M' update_conv' n_def[symmetric] v_def[symmetric])
  with st show ?thesis by (simp add: M')
qed

lemma forEach_invariants:
  "forEach_module fs h cx M0 ms = Some (Inr M) \<Longrightarrow> modules_ok M0 \<Longrightarrow>
   modules_ok M \<and> modules_grow M0 M \<and> list_all (contributed fs h M) ms"
proof (induction ms arbitrary: M0)
  case Nil
  then show ?case by (simp add: modules_grow_refl modules_ok_iff)
next
  case (Cons a as)
  from Cons.prems(1) obtain M1 where 1: "processModule fs h cx M0 a = Some (Inr M1)"
    and 2: "forEach_module fs h cx M1 as = Some (Inr M)"
    by (auto split: option.splits sum.splits)
  from processModule_step[OF 1 Cons.prems(2)]
  have s: "modules_ok M1" "modules_grow M0 M1" "contributed fs h M1 a" by simp_all
  from Cons.IH[OF 2 s(1)]
  have i: "modules_ok M" "modules_grow M1 M" "list_all (contributed fs h M) as" by simp_all
  have d: "distinct (map fst M0)" "distinct (map fst M1)"
    using Cons.prems(2) s(1) by (simp_all add: modules_ok_iff)
  from modules_grow_trans[OF d s(2) i(2)] have "modules_grow M0 M" .
  moreover from contributed_grow[OF s(3) d(2) i(2)] have "contributed fs h M a" .
  ultimately show ?case using i by simp
qed



lemma ex_forEach:
  "forEach_module ex_fs ex_store ''/app'' [] [0, 1, 2, 3, 4, 5] = Some (Inr ex_modules)"
  by code_simp




section \<open>Strict mode: one diagnostic for every name with several versions\<close>

text \<open>
  On versions that are strings the comparison of the source is the order of the strings,
  and the insertion sort with it is the sort by version.
\<close>

lemma js_less_Some: "js_less (Some x) (Some y) \<longleftrightarrow> x < y"
  by (simp add: js_less_def)












lemma lookup_entries_member:
  "distinct (map fst M) \<Longrightarrow> (n, es) \<in> set M \<Longrightarrow> lookup_entries M n = es"
  by (simp add: lookup_entries_def)

lemma filter_by_lookup:
  assumes "distinct (map fst M)"
  shows "filter (\<lambda>(n, es). P n es) M = filter (\<lambda>x. P (fst x) (lookup_entries M (fst x))) M"
  using lookup_entries_member[OF assms] by (intro filter_cong) auto

lemma keys_filter_by_lookup:
  assumes "distinct (map fst M)"
  shows "map fst (filter (\<lambda>(n, es). P n es) M) = filter (\<lambda>n. P n (lookup_entries M n)) (map fst M)"
  unfolding filter_by_lookup[OF assms] by (simp add: filter_map comp_def)



lemma modules_ok_lookup:
  "modules_ok M \<Longrightarrow> entries_ok (lookup_entries M n)"
  by (auto simp: modules_ok_iff lookup_entries_def entries_ok_def split: option.splits)




lemma callbacks_emit_messages: "callbacks (emit_messages opts c msgs) = callbacks c"
  by (simp add: emit_messages_def)







section \<open>Relaxed mode: the major groups of two or more\<close>

lemma majors_valid:
  "list_all (\<lambda>e. major (version e) \<noteq> None) es \<Longrightarrow>
   majors major es = Inr (List.map_filter (\<lambda>e. major (version e)) es)"
  by (induction es) (auto simp: List.map_filter_simps)

lemma groupBy_major_valid:
  "list_all (\<lambda>e. major (version e) \<noteq> None) es \<Longrightarrow>
   groupBy_major major es =
     Inr (map (\<lambda>k. filter (\<lambda>e. major (version e) = Some k) es)
            (sort (remdups (List.map_filter (\<lambda>e. major (version e)) es))))"
  by (simp add: groupBy_major_def majors_valid)

lemma set_major_group: "set (filter (\<lambda>e. major (version e) = Some k) es) = major_group major es k"
  by (auto simp: major_group_def)

lemma length_major_group:
  "distinct es \<Longrightarrow> length (filter (\<lambda>e. major (version e) = Some k) es) = card (major_group major es k)"
proof -
  assume "distinct es"
  then have "distinct (filter (\<lambda>e. major (version e) = Some k) es)" by simp
  from distinct_card[OF this] show ?thesis by (simp only: set_major_group)
qed

lemma set_map_filter_Some:
  "set (List.map_filter f xs) = {y. \<exists>x\<in>set xs. f x = Some y}"
  by (induction xs) (auto simp: List.map_filter_simps split: option.splits)

lemma major_group_key:
  "e \<in> major_group major es k \<Longrightarrow> k \<in> set (List.map_filter (\<lambda>e. major (version e)) es)"
  unfolding set_map_filter_Some major_group_def by blast

lemma set_relaxed_filtered:
  assumes "distinct es"
  shows "set (relaxed_filtered major es) =
         \<Union>{major_group major es k |k. 2 \<le> card (major_group major es k)}"
proof -
  define ks where "ks = List.map_filter (\<lambda>e. major (version e)) es"
  have "set (relaxed_filtered major es) =
        \<Union>(set ` set (filter (\<lambda>group. 1 < length group)
           (map (\<lambda>k. filter (\<lambda>e. major (version e) = Some k) es) (sort (remdups ks)))))"
    by (simp add: relaxed_filtered_def ks_def)
  also have "\<dots> = \<Union>{major_group major es k |k. k \<in> set ks \<and> 2 \<le> card (major_group major es k)}"
  proof -
    have "set ` set (filter (\<lambda>group. 1 < length group)
           (map (\<lambda>k. filter (\<lambda>e. major (version e) = Some k) es) (sort (remdups ks)))) =
          {major_group major es k |k. k \<in> set ks \<and> 2 \<le> card (major_group major es k)}"
      (is "?L = ?R")
    proof (intro set_eqI iffI)
      fix X assume "X \<in> ?L"
      then obtain k where "k \<in> set ks" "1 < length (filter (\<lambda>e. major (version e) = Some k) es)"
        "X = set (filter (\<lambda>e. major (version e) = Some k) es)" by auto
      then show "X \<in> ?R"
        unfolding length_major_group[OF assms] set_major_group by auto
    next
      fix X assume "X \<in> ?R"
      then obtain k where k: "k \<in> set ks" "2 \<le> card (major_group major es k)"
        "X = major_group major es k" by auto
      then have "1 < length (filter (\<lambda>e. major (version e) = Some k) es)"
        unfolding length_major_group[OF assms] by simp
      with k(1,3) show "X \<in> ?L"
        unfolding set_major_group[symmetric] by (intro image_eqI[where x = "filter (\<lambda>e. major (version e) = Some k) es"]) auto
    qed
    then show ?thesis by simp
  qed
  also have "\<dots> = \<Union>{major_group major es k |k. 2 \<le> card (major_group major es k)}"
  proof -
    have "k \<in> set ks" if "2 \<le> card (major_group major es k)" for k
    proof -
      from that have "major_group major es k \<noteq> {}" by auto
      then obtain e where "e \<in> major_group major es k" by blast
      then show ?thesis unfolding ks_def by (rule major_group_key)
    qed
    then have "{major_group major es k |k. k \<in> set ks \<and> 2 \<le> card (major_group major es k)} =
               {major_group major es k |k. 2 \<le> card (major_group major es k)}" by blast
    then show ?thesis by simp
  qed
  finally show ?thesis .
qed

lemma relaxed_filtered_empty_iff:
  assumes "distinct es"
  shows "length (relaxed_filtered major es) \<le> 1 \<longleftrightarrow> \<not> (\<exists>k. 2 \<le> card (major_group major es k))"
proof
  assume l: "length (relaxed_filtered major es) \<le> 1"
  show "\<not> (\<exists>k. 2 \<le> card (major_group major es k))"
  proof
    assume "\<exists>k. 2 \<le> card (major_group major es k)"
    then obtain k where k: "2 \<le> card (major_group major es k)" by blast
    then have "major_group major es k \<subseteq> set (relaxed_filtered major es)"
      unfolding set_relaxed_filtered[OF assms] by blast
    then have "card (major_group major es k) \<le> card (set (relaxed_filtered major es))"
      by (intro card_mono) auto
    also have "\<dots> \<le> length (relaxed_filtered major es)" by (rule card_length)
    finally show False using k l by simp
  qed
next
  assume "\<not> (\<exists>k. 2 \<le> card (major_group major es k))"
  then have "set (relaxed_filtered major es) = {}"
    unfolding set_relaxed_filtered[OF assms] by blast
  then show "length (relaxed_filtered major es) \<le> 1" by simp
qed

lemma small_no_group:
  assumes "length es \<le> 1"
  shows "\<not> (\<exists>k. 2 \<le> card (major_group major es k))"
proof
  assume "\<exists>k. 2 \<le> card (major_group major es k)"
  then obtain k where k: "2 \<le> card (major_group major es k)" by blast
  have "card (major_group major es k) \<le> card (set es)"
    by (intro card_mono) (auto simp: major_group_def)
  also have "\<dots> \<le> length es" by (rule card_length)
  finally show False using k assms by simp
qed

lemma classifyName_relaxed:
  assumes "\<not> strict opts" "exclude opts = None" "distinct es"
    and "length es \<le> 1 \<or> list_all (\<lambda>e. major (version e) \<noteq> None) es"
  shows "classifyName opts major n es =
         Inr (if \<exists>k. 2 \<le> card (major_group major es k) then Some (relaxed_filtered major es) else None)"
proof (cases "length es \<le> 1")
  case True
  with small_no_group[OF True, of major] show ?thesis by (simp add: classifyName_def)
next
  case False
  with assms(4) have v: "list_all (\<lambda>e. major (version e) \<noteq> None) es" by simp
  have "classifyName opts major n es =
        (if length (relaxed_filtered major es) \<le> 1 then Inr None else Inr (Some (relaxed_filtered major es)))"
    using False assms(1,2)
    by (simp add: classifyName_def groupBy_major_valid[OF v] relaxed_filtered_def)
  then show ?thesis using relaxed_filtered_empty_iff[OF assms(3), of major] by simp
qed

lemma classify_relaxed:
  assumes "\<not> strict opts" "exclude opts = None"
    and "list_all (\<lambda>(n, es). distinct es \<and> (length es \<le> 1 \<or> list_all (\<lambda>e. major (version e) \<noteq> None) es)) M"
  shows "classify opts major M =
         Inr (map (\<lambda>(n, es). (n, relaxed_filtered major es))
                (filter (\<lambda>(n, es). \<exists>k. 2 \<le> card (major_group major es k)) M))"
  using assms(3)
proof (induction M)
  case Nil
  then show ?case by simp
next
  case (Cons x M)
  obtain n es where x: "x = (n, es)" by (cases x)
  from Cons.prems x have d: "distinct es"
    and v: "length es \<le> 1 \<or> list_all (\<lambda>e. major (version e) \<noteq> None) es" by simp_all
  from Cons have ih: "classify opts major M =
         Inr (map (\<lambda>(n, es). (n, relaxed_filtered major es))
                (filter (\<lambda>(n, es). \<exists>k. 2 \<le> card (major_group major es k)) M))" by simp
  show ?case
    unfolding x by (simp add: classifyName_relaxed[OF assms(1,2) d v] ih)
qed

text \<open>
  C2, as amended. In relaxed mode without an exclusion predicate, when the pass over the
  modules returns the dictionary \<open>M\<close> and every version of a name with two or more instances
  has a major number: the duplicates \<open>D\<close> have as keys exactly the names of \<open>M\<close> one of whose major
  groups has two or more members, and the instances kept for such a name are exactly the
  union of its major groups of two or more members, so that no instance of a group of
  size one is kept; the handler formats these duplicates and calls the callback once.
\<close>

theorem relaxed_mode_reports_major_groups:
  assumes "\<not> strict opts" "exclude opts = None"
    and "forEach_module fs h (ctx c) [] (modules c) = Some (Inr M)"
    and "list_all (\<lambda>(n, es). length es \<le> 1 \<or> list_all (\<lambda>e. major (version e) \<noteq> None) es) M"
  shows "\<exists>D. classify opts major M = Inr D \<and>
           map fst D =
             filter (\<lambda>n. \<exists>k. 2 \<le> card (major_group major (lookup_entries M n) k)) (map fst M) \<and>
           list_all (\<lambda>(n, F). set F =
                \<Union>{major_group major (lookup_entries M n) k |k.
                     2 \<le> card (major_group major (lookup_entries M n) k)}) D \<and>
           handler fs major h opts c =
             Some (Inr ((emit_messages opts c (formatAll opts (sortedDuplicates D)))
                          \<lparr>callbacks := callbacks c + 1\<rparr>))"
proof -
  have "modules_ok []" by (simp add: modules_ok_def)
  with forEach_invariants[OF assms(3)] have ok: "modules_ok M" by simp
  then have d: "distinct (map fst M)" by (simp add: modules_ok_iff)
  have de: "distinct es" if "(n, es) \<in> set M" for n es
  proof -
    from lookup_entries_member[OF d that] modules_ok_lookup[OF ok, of n]
    have "distinct (map version es)" by (simp add: entries_ok_def)
    then show ?thesis by (simp add: distinct_map)
  qed
  have "list_all (\<lambda>(n, es). distinct es \<and> (length es \<le> 1 \<or> list_all (\<lambda>e. major (version e) \<noteq> None) es)) M"
    using assms(4) de by (auto simp: list_all_iff)
  note cl = classify_relaxed[OF assms(1,2) this]
  define D where "D = map (\<lambda>(n, es). (n, relaxed_filtered major es))
                (filter (\<lambda>(n, es). \<exists>k. 2 \<le> card (major_group major es k)) M)"
  have 1: "classify opts major M = Inr D" using cl by (simp add: D_def)
  have 2: "map fst D =
             filter (\<lambda>n. \<exists>k. 2 \<le> card (major_group major (lookup_entries M n) k)) (map fst M)"
    using keys_filter_by_lookup[OF d, of "\<lambda>n es. \<exists>k. 2 \<le> card (major_group major es k)"]
    by (simp add: D_def comp_def case_prod_unfold)
  have 3: "list_all (\<lambda>(n, F). set F =
                \<Union>{major_group major (lookup_entries M n) k |k.
                     2 \<le> card (major_group major (lookup_entries M n) k)}) D"
    unfolding list_all_iff
  proof
    fix x assume "x \<in> set D"
    then obtain n es where x: "x = (n, relaxed_filtered major es)" and m: "(n, es) \<in> set M"
      by (auto simp: D_def)
    from lookup_entries_member[OF d m] set_relaxed_filtered[OF de[OF m], of major]
    show "case x of (n, F) \<Rightarrow> set F =
                \<Union>{major_group major (lookup_entries M n) k |k.
                     2 \<le> card (major_group major (lookup_entries M n) k)}"
      by (simp add: x)
  qed
  have 4: "handler fs major h opts c =
             Some (Inr ((emit_messages opts c (formatAll opts (sortedDuplicates D)))
                          \<lparr>callbacks := callbacks c + 1\<rparr>))"
    by (simp only: handler_def assms(3) option.case 1 sum.case Let_def callbacks_emit_messages)
  from 1 2 3 4 show ?thesis by blast
qed

lemma ex2_forEach:
  "forEach_module ex2_fs ex2_store (ctx ex2_compilation) [] (modules ex2_compilation) =
   Some (Inr ex2_modules)"
  by code_simp

lemma ex2_classify:
  "classify relaxed semver_major ex2_modules = Inr [(''b'', [ex2_b_150, ex2_b_100])]"
  by code_simp

lemma ex2_valid:
  "list_all (\<lambda>(n, es). length es \<le> 1 \<or> list_all (\<lambda>e. semver_major (version e) \<noteq> None) es) ex2_modules"
  by code_simp

lemma ex2_messages:
  "formatAll relaxed (sortedDuplicates [(''b'', [ex2_b_150, ex2_b_100])]) =
   [''b\<newline>  Multiple versions of b found:\<newline>    1.0.0 ~/b@1.0.0\<newline>    1.5.0 ~/x@3.1.0 -> b@1.5.0\<newline>\<newline>Check how you can resolve duplicate packages: \<newline>https://github.com/kingback/duplicate-package-checker-webpack-plugin#resolving-duplicate-packages-in-your-bundle\<newline>'']"
  by code_simp

theorem relaxed_mode_witness:
  "\<not> strict relaxed \<and> exclude relaxed = None \<and>
   forEach_module ex2_fs ex2_store (ctx ex2_compilation) [] (modules ex2_compilation) =
     Some (Inr ex2_modules) \<and>
   lookup_entries ex2_modules ''b'' = [ex2_b_200, ex2_b_150, ex2_b_100] \<and>
   classify relaxed semver_major ex2_modules = Inr [(''b'', [ex2_b_150, ex2_b_100])] \<and>
   [''b''] = filter (\<lambda>n. \<exists>k. 2 \<le> card (major_group semver_major (lookup_entries ex2_modules n) k))
               (map fst ex2_modules) \<and>
   {ex2_b_150, ex2_b_100} =
     \<Union>{major_group semver_major (lookup_entries ex2_modules ''b'') k |k.
          2 \<le> card (major_group semver_major (lookup_entries ex2_modules ''b'') k)} \<and>
   handler ex2_fs semver_major ex2_store relaxed ex2_compilation =
     Some (Inr (ex2_compilation\<lparr>warnings :=
       [''b\<newline>  Multiple versions of b found:\<newline>    1.0.0 ~/b@1.0.0\<newline>    1.5.0 ~/x@3.1.0 -> b@1.5.0\<newline>\<newline>Check how you can resolve duplicate packages: \<newline>https://github.com/kingback/duplicate-package-checker-webpack-plugin#resolving-duplicate-packages-in-your-bundle\<newline>''],
       callbacks := 1\<rparr>))"
proof -
  have s: "\<not> strict relaxed" "exclude relaxed = None" by (simp_all add: relaxed_def defaults_def)
  from relaxed_mode_reports_major_groups[OF s ex2_forEach ex2_valid]
  obtain D where D: "classify relaxed semver_major ex2_modules = Inr D"
    "map fst D = filter (\<lambda>n. \<exists>k. 2 \<le> card (major_group semver_major (lookup_entries ex2_modules n) k))
               (map fst ex2_modules)"
    "list_all (\<lambda>(n, F). set F =
                \<Union>{major_group semver_major (lookup_entries ex2_modules n) k |k.
                     2 \<le> card (major_group semver_major (lookup_entries ex2_modules n) k)}) D"
    "handler ex2_fs semver_major ex2_store relaxed ex2_compilation =
             Some (Inr ((emit_messages relaxed ex2_compilation (formatAll relaxed (sortedDuplicates D)))
                          \<lparr>callbacks := callbacks ex2_compilation + 1\<rparr>))"
    by blast
  from D(1) ex2_classify have De: "D = [(''b'', [ex2_b_150, ex2_b_100])]" by simp
  have l: "lookup_entries ex2_modules ''b'' = [ex2_b_200, ex2_b_150, ex2_b_100]"
    by (simp add: lookup_entries_def ex2_modules_def)
  from D(2) have 2: "[''b''] = filter (\<lambda>n. \<exists>k. 2 \<le> card (major_group semver_major (lookup_entries ex2_modules n) k))
               (map fst ex2_modules)" unfolding De by simp
  from D(3) have 3: "{ex2_b_150, ex2_b_100} =
     \<Union>{major_group semver_major (lookup_entries ex2_modules ''b'') k |k.
          2 \<le> card (major_group semver_major (lookup_entries ex2_modules ''b'') k)}"
    unfolding De by simp
  from D(4) have 4: "handler ex2_fs semver_major ex2_store relaxed ex2_compilation =
     Some (Inr (ex2_compilation\<lparr>warnings :=
       [''b\<newline>  Multiple versions of b found:\<newline>    1.0.0 ~/b@1.0.0\<newline>    1.5.0 ~/x@3.1.0 -> b@1.5.0\<newline>\<newline>Check how you can resolve duplicate packages: \<newline>https://github.com/kingback/duplicate-package-checker-webpack-plugin#resolving-duplicate-packages-in-your-bundle\<newline>''],
       callbacks := 1\<rparr>))"
    unfolding De ex2_messages
    by (simp add: emit_messages_def relaxed_def defaults_def ex2_compilation_def)
  from s ex2_forEach l ex2_classify 2 3 4 show ?thesis by blast
qed

text \<open>
  The claim C2 as stated fails in two ways. With an exclusion predicate a name with a
  major group of two gets no diagnostic: in the second example project the versions
  \<open>1.0.0\<close> and \<open>1.5.0\<close> of \<open>b\<close> share the major number 1, the predicate rejects version \<open>1.5.0\<close>,
  and the handler pushes no message. And a version that is none, of whatever package,
  ends the pass: when the project holds the package \<open>z\<close> as well, in the versions \<open>1.0.0\<close> and
  \<open>2.0\<close>, the handler throws and \<open>b\<close> is not reported.
\<close>

lemma ex2_group_of_b:
  "filter (\<lambda>e. semver_major (version e) = Some 1) [ex2_b_200, ex2_b_150, ex2_b_100] =
   [ex2_b_150, ex2_b_100]"
  by code_simp

theorem relaxed_mode_group_not_reported:
  "\<not> strict (relaxed\<lparr>exclude := Some ex_exclude_150\<rparr>) \<and>
   forEach_module ex2_fs ex2_store (ctx ex2_compilation) [] (modules ex2_compilation) =
     Some (Inr ex2_modules) \<and>
   lookup_entries ex2_modules ''b'' = [ex2_b_200, ex2_b_150, ex2_b_100] \<and>
   major_group semver_major [ex2_b_200, ex2_b_150, ex2_b_100] 1 = {ex2_b_150, ex2_b_100} \<and>
   ex2_b_150 \<noteq> ex2_b_100 \<and>
   handler ex2_fs semver_major ex2_store (relaxed\<lparr>exclude := Some ex_exclude_150\<rparr>) ex2_compilation =
     Some (Inr (ex2_compilation\<lparr>callbacks := 1\<rparr>)) \<and>
   \<not> strict relaxed \<and> exclude relaxed = None \<and>
   forEach_module ex4_fs ex4_store (ctx ex4_compilation) [] (modules ex4_compilation) =
     Some (Inr ex4_modules) \<and>
   lookup_entries ex4_modules ''b'' = [ex2_b_200, ex2_b_150, ex2_b_100] \<and>
   map version (lookup_entries ex4_modules ''z'') = [Some ''1.0.0'', Some ''2.0''] \<and>
   semver_major (Some ''2.0'') = None \<and>
   handler ex4_fs semver_major ex4_store relaxed ex4_compilation =
     Some (Inl (TypeError ''Invalid Version: 2.0''))"
proof -
  have g: "major_group semver_major [ex2_b_200, ex2_b_150, ex2_b_100] 1 = {ex2_b_150, ex2_b_100}"
    unfolding set_major_group[symmetric] ex2_group_of_b by simp
  have r: "\<not> strict (relaxed\<lparr>exclude := Some ex_exclude_150\<rparr>) \<and>
   forEach_module ex2_fs ex2_store (ctx ex2_compilation) [] (modules ex2_compilation) =
     Some (Inr ex2_modules) \<and>
   lookup_entries ex2_modules ''b'' = [ex2_b_200, ex2_b_150, ex2_b_100] \<and>
   ex2_b_150 \<noteq> ex2_b_100 \<and>
   handler ex2_fs semver_major ex2_store (relaxed\<lparr>exclude := Some ex_exclude_150\<rparr>) ex2_compilation =
     Some (Inr (ex2_compilation\<lparr>callbacks := 1\<rparr>)) \<and>
   \<not> strict relaxed \<and> exclude relaxed = None \<and>
   forEach_module ex4_fs ex4_store (ctx ex4_compilation) [] (modules ex4_compilation) =
     Some (Inr ex4_modules) \<and>
   lookup_entries ex4_modules ''b'' = [ex2_b_200, ex2_b_150, ex2_b_100] \<and>
   map version (lookup_entries ex4_modules ''z'') = [Some ''1.0.0'', Some ''2.0''] \<and>
   semver_major (Some ''2.0'') = None \<and>
   handler ex4_fs semver_major ex4_store relaxed ex4_compilation =
     Some (Inl (TypeError ''Invalid Version: 2.0''))"
    by code_simp
  with g show ?thesis by blast
qed

section \<open>The exclusion predicate\<close>

lemma classifyName_exclude:
  "classifyName (opts\<lparr>exclude := Some ex\<rparr>) major n es =
     (case classifyName (opts\<lparr>exclude := None\<rparr>) major n es of
        Inl err \<Rightarrow> Inl err
      | Inr None \<Rightarrow> Inr None
      | Inr (Some F) \<Rightarrow>
          if length (filter (\<lambda>inst. \<not> ex n inst) F) \<le> 1 then Inr None
          else Inr (Some (filter (\<lambda>inst. \<not> ex n inst) F)))"
  by (simp add: classifyName_def Let_def split: sum.splits)

lemma classify_exclude:
  "classify (opts\<lparr>exclude := Some ex\<rparr>) major M =
     (case classify (opts\<lparr>exclude := None\<rparr>) major M of
        Inl err \<Rightarrow> Inl err
      | Inr D \<Rightarrow> Inr (exclude_stage ex D))"
proof (induction M)
  case Nil
  then show ?case by (simp add: exclude_stage_def)
next
  case (Cons x M)
  obtain n es where x: "x = (n, es)" by (cases x)
  show ?case
  proof (cases "classifyName (opts\<lparr>exclude := None\<rparr>) major n es")
    case (Inl err)
    then show ?thesis by (simp add: x classifyName_exclude)
  next
    case (Inr r)
    show ?thesis
    proof (cases "classify (opts\<lparr>exclude := None\<rparr>) major M")
      case (Inl err)
      with Inr Cons show ?thesis
        by (cases r) (simp_all add: x classifyName_exclude)
    next
      case D: (Inr D)
      with Inr Cons show ?thesis
        by (cases r) (simp_all add: x classifyName_exclude exclude_stage_def)
    qed
  qed
qed

text \<open>
  C6. With an exclusion predicate \<open>ex\<close>, the duplicates are those of the classification
  without a predicate, passed through the exclusion: the predicate is applied to each
  instance the classification has kept, together with the package name, the instances for
  which it holds are dropped, and a name with at most one instance left is skipped. The
  handler formats the duplicates that remain, so a skipped name gets no diagnostic.
\<close>

theorem exclusion_after_classification:
  "classify (opts\<lparr>exclude := Some ex\<rparr>) major M =
     (case classify (opts\<lparr>exclude := None\<rparr>) major M of
        Inl err \<Rightarrow> Inl err
      | Inr D \<Rightarrow> Inr (exclude_stage ex D)) \<and>
   handler fs major h (opts\<lparr>exclude := Some ex\<rparr>) c =
     (case forEach_module fs h (ctx c) [] (modules c) of
        None \<Rightarrow> None
      | Some (Inl err) \<Rightarrow> Some (Inl err)
      | Some (Inr M') \<Rightarrow>
          Some (case classify (opts\<lparr>exclude := None\<rparr>) major M' of
                  Inl err \<Rightarrow> Inl err
                | Inr D \<Rightarrow>
                    Inr ((emit_messages (opts\<lparr>exclude := Some ex\<rparr>) c
                            (formatAll (opts\<lparr>exclude := Some ex\<rparr>)
                               (sortedDuplicates (exclude_stage ex D))))
                          \<lparr>callbacks := callbacks c + 1\<rparr>)))"
proof
  show "classify (opts\<lparr>exclude := Some ex\<rparr>) major M =
     (case classify (opts\<lparr>exclude := None\<rparr>) major M of
        Inl err \<Rightarrow> Inl err
      | Inr D \<Rightarrow> Inr (exclude_stage ex D))"
    by (rule classify_exclude)
next
  show "handler fs major h (opts\<lparr>exclude := Some ex\<rparr>) c =
     (case forEach_module fs h (ctx c) [] (modules c) of
        None \<Rightarrow> None
      | Some (Inl err) \<Rightarrow> Some (Inl err)
      | Some (Inr M') \<Rightarrow>
          Some (case classify (opts\<lparr>exclude := None\<rparr>) major M' of
                  Inl err \<Rightarrow> Inl err
                | Inr D \<Rightarrow>
                    Inr ((emit_messages (opts\<lparr>exclude := Some ex\<rparr>) c
                            (formatAll (opts\<lparr>exclude := Some ex\<rparr>)
                               (sortedDuplicates (exclude_stage ex D))))
                          \<lparr>callbacks := callbacks c + 1\<rparr>)))"
  proof (cases "forEach_module fs h (ctx c) [] (modules c)")
    case None
    then show ?thesis by (simp add: handler_def)
  next
    case (Some r)
    show ?thesis
    proof (cases r)
      case (Inl err)
      with Some show ?thesis by (simp add: handler_def)
    next
      case M: (Inr M')
      show ?thesis
      proof (cases "classify (opts\<lparr>exclude := None\<rparr>) major M'")
        case (Inl err)
        with Some M show ?thesis by (simp add: handler_def classify_exclude)
      next
        case (Inr D)
        with Some M show ?thesis
          by (simp add: handler_def classify_exclude Let_def callbacks_emit_messages)
      qed
    qed
  qed
qed

lemma ex_classify_no_exclude:
  "classify (defaults\<lparr>exclude := None\<rparr>) (\<lambda>v. None) ex_modules =
   Inr [(''a'', lookup_entries ex_modules ''a'')]"
  by code_simp

lemma ex_exclude_stage:
  "exclude_stage ex_exclude [(''a'', lookup_entries ex_modules ''a'')] = []"
  by code_simp

theorem exclusion_witness:
  "map version (lookup_entries ex_modules ''a'') = [Some ''1.0.0'', Some ''2.0.0''] \<and>
   classify (defaults\<lparr>exclude := None\<rparr>) (\<lambda>v. None) ex_modules =
     Inr [(''a'', lookup_entries ex_modules ''a'')] \<and>
   classify (defaults\<lparr>exclude := Some ex_exclude\<rparr>) (\<lambda>v. None) ex_modules = Inr [] \<and>
   handler ex_fs (\<lambda>v. None) ex_store (defaults\<lparr>exclude := Some ex_exclude\<rparr>) ex_compilation =
     Some (Inr (ex_compilation\<lparr>callbacks := 1\<rparr>))"
proof -
  note t = exclusion_after_classification[where opts = defaults and ex = ex_exclude
      and major = "\<lambda>v. None" and M = ex_modules, THEN conjunct1]
  have c: "classify (defaults\<lparr>exclude := Some ex_exclude\<rparr>) (\<lambda>v. None) ex_modules = Inr []"
    using t unfolding ex_classify_no_exclude by (simp add: ex_exclude_stage)
  have f: "forEach_module ex_fs ex_store (ctx ex_compilation) [] (modules ex_compilation) =
           Some (Inr ex_modules)"
    using ex_forEach by (simp add: ex_compilation_def)
  have h: "handler ex_fs (\<lambda>v. None) ex_store (defaults\<lparr>exclude := Some ex_exclude\<rparr>) ex_compilation =
     Some (Inr (ex_compilation\<lparr>callbacks := 1\<rparr>))"
    by (simp only: handler_def f option.case c sum.case)
      (simp add: sortedDuplicates_def emit_messages_def defaults_def ex_compilation_def)
  have v: "map version (lookup_entries ex_modules ''a'') = [Some ''1.0.0'', Some ''2.0.0'']"
    by (simp add: lookup_entries_def ex_modules_def)
  from v ex_classify_no_exclude c h show ?thesis by blast
qed

section \<open>Exceptions and the callback\<close>

lemma classifyName_strict_Inr:
  "strict opts \<Longrightarrow> \<exists>r. classifyName opts major n es = Inr r"
  by (simp add: classifyName_def Let_def split: option.splits)

lemma classify_strict_Inr:
  "strict opts \<Longrightarrow> \<exists>D. classify opts major M = Inr D"
proof (induction M)
  case Nil
  then show ?case by simp
next
  case (Cons x M)
  obtain n es where x: "x = (n, es)" by (cases x)
  from classifyName_strict_Inr[OF Cons.prems, of major n es] Cons
  show ?case by (auto simp: x)
qed

text \<open>
  In strict mode the classification does not throw: when the pass over the modules
  returns a dictionary, the handler returns and calls the callback once.
\<close>

lemma handler_strict_calls_back_once:
  assumes "strict opts" "forEach_module fs h (ctx c) [] (modules c) = Some (Inr M)"
  shows "\<exists>c'. handler fs major h opts c = Some (Inr c') \<and> callbacks c' = callbacks c + 1"
proof -
  from classify_strict_Inr[OF assms(1), of major M] obtain D where D: "classify opts major M = Inr D"
    by blast
  show ?thesis by (simp add: handler_def assms(2) D Let_def callbacks_emit_messages)
qed

text \<open>
  C3. The claim that no exception leaves the handler and that the callback is always
  called once does not hold of the code in relaxed mode: \<^verbatim>\<open>semver.major\<close> throws for a
  version string that is no version, nothing catches the exception, and the callback is
  not called. In the third example project the package \<open>a\<close> has the versions \<open>1.0.0\<close> and
  \<open>2.0\<close>; the aggregation returns, and the handler ends with the \<^verbatim>\<open>TypeError\<close>.
\<close>

theorem relaxed_mode_throws_on_invalid_version:
  "semver_major (Some ''2.0'') = None \<and>
   forEach_module ex3_fs ex_store (ctx ex_compilation) [] (modules ex_compilation) =
     Some (Inr [(''app'', [\<lparr>version = Some ''0.1.0'', path = ''.'', issuerPaths = [], entry_issuer = None\<rparr>]),
      (''b'', [\<lparr>version = Some ''1.0.0'', path = ''./~/b'', issuerPaths = [''~/b@1.0.0''],
                entry_issuer = Some ''./src/index.js''\<rparr>]),
      (''c'', [\<lparr>version = Some ''1.0.0'', path = ''./~/c'', issuerPaths = [''~/b@1.0.0 -> c@1.0.0''],
                entry_issuer = Some ''./~/b/index.js''\<rparr>]),
      (''a'', [\<lparr>version = Some ''1.0.0'', path = ''./~/a'',
                 issuerPaths = [''~/a@1.0.0'', ''~/b@1.0.0 -> c@1.0.0 -> a@1.0.0''],
                 entry_issuer = Some ''./src/index.js''\<rparr>,
               \<lparr>version = Some ''2.0'', path = ''./~/b/~/a'', issuerPaths = [''~/b@1.0.0 -> a@2.0''],
                 entry_issuer = Some ''./~/b/index.js''\<rparr>])]) \<and>
   handler ex3_fs semver_major ex_store relaxed ex_compilation =
     Some (Inl (TypeError ''Invalid Version: 2.0''))"
  by code_simp

section \<open>The order of the modules and the diagnostics\<close>























subsection \<open>Arrays with the same versions and issuer paths\<close>








subsection \<open>The instances kept for one name\<close>















subsection \<open>The duplicates of two dictionaries with the same versions and issuer paths\<close>












end
